theory Spec2Isabelle
  imports Main "HOL-Library.Word" "HOL-Library.AList" "HOL-Library.Multiset"
begin

unbundle bit_operations_syntax

section \<open>natter_go: NAT mapping discovery, keep-alive and status reporting\<close>

text \<open>
  A shallow embedding of the Go packages \<^verbatim>\<open>status\<close>, \<^verbatim>\<open>orchestrator\<close>,
  \<^verbatim>\<open>keepalive\<close>, \<^verbatim>\<open>stun\<close> and \<open>forward\<close>. Go strings are byte strings
  (\<^typ>\<open>string\<close>), Go maps are association lists with distinct keys, a panic is the
  left summand of a sum type, and whatever the operating system, the network or the
  random source decides is an explicit argument of the function that asks for it.
\<close>

datatype panic = NilMapWrite | SliceBoundsOutOfRange | IndexOutOfRange | TypeAssertion

datatype error =
    OpenStatusFile
  | SeekError | TruncateError | WriteError
  | ResolveError | DialError | StartError | TransactionError | NoXorMappedAddress
  | AllUDPServersFailed | AllTCPServersFailed
  | ErrSyntax | ErrRange

subsection \<open>encoding/json, as far as the status file needs it\<close>

datatype json = JString string | JArray "json list" | JObject "(string \<times> json) list"

text \<open>
  \<^verbatim>\<open>encoding/json\<close> writes the entries of a map in the byte order of their keys.
\<close>

fun bytes_le :: "string \<Rightarrow> string \<Rightarrow> bool" where
  "bytes_le [] ys = True"
| "bytes_le (x # xs) [] = False"
| "bytes_le (x # xs) (y # ys) =
     (if x = y then bytes_le xs ys else (of_char x :: nat) < of_char y)"

fun insert_key :: "string \<times> 'v \<Rightarrow> (string \<times> 'v) list \<Rightarrow> (string \<times> 'v) list" where
  "insert_key kv [] = [kv]"
| "insert_key kv (p # ps) =
     (if bytes_le (fst kv) (fst p) then kv # p # ps else p # insert_key kv ps)"

definition sort_keys :: "(string \<times> 'v) list \<Rightarrow> (string \<times> 'v) list" where
  "sort_keys al = foldr insert_key al []"

text \<open>A \<^verbatim>\<open>map[string]string\<close> value and a \<^verbatim>\<open>map[string][]map[string]string\<close> value.\<close>

definition encode_strmap :: "(string \<times> string) list \<Rightarrow> json" where
  "encode_strmap r = JObject (map (\<lambda>(k, v). (k, JString v)) (sort_keys r))"

definition encode_tmp :: "(string \<times> (string \<times> string) list list) list \<Rightarrow> json" where
  "encode_tmp t = JObject (map (\<lambda>(k, rs). (k, JArray (map encode_strmap rs))) (sort_keys t))"

subsection \<open>strings.ReplaceAll\<close>

text \<open>
  Non-overlapping occurrences of \<open>old\<close> are replaced from the left. The status manager
  calls it with the three non-empty placeholders only; the empty \<open>old\<close> (which Go
  treats as matching between any two characters) is left alone here.
\<close>

function ReplaceAll :: "string \<Rightarrow> string \<Rightarrow> string \<Rightarrow> string" where
  "ReplaceAll s old new =
     (if old = [] \<or> s = [] then s
      else if take (length old) s = old
           then new @ ReplaceAll (drop (length old) s) old new
           else hd s # ReplaceAll (tl s) old new)"
  by pat_completeness auto
termination
  by (relation "measure (\<lambda>(s, old, new). length s)") (auto simp: neq_Nil_conv)

subsection \<open>package status\<close>

record UpdateEvent =
  Protocol :: string
  InnerAddr :: string
  OuterAddr :: string

text \<open>
  What is on disk: the file as \<^verbatim>\<open>O_TRUNC\<close> or \<^verbatim>\<open>Truncate(0)\<close> leaves it, a
  document the encoder wrote in full, or what a failed write of a document left behind.
\<close>

datatype file_content = Truncated | Document json | Torn json

text \<open>
  The manager. \<open>mappings\<close> is the field of the same name (protocol, then inner address,
  to outer address). \<open>file'\<close> stands for the open status file, and two logs record the
  effects of the manager in program order: \<open>encoded\<close> holds every document handed to
  \<^verbatim>\<open>enc.Encode\<close>, \<open>spawned\<close> every command line started under \<^verbatim>\<open>sh -c\<close>.
\<close>

record StatusManager =
  hookCmd :: string
  file' :: file_content
  mappings :: "(string \<times> (string \<times> string) list) list"
  encoded :: "json list"
  spawned :: "string list"

text \<open>
  What the surroundings decide during one call of \<^verbatim>\<open>handleEvent\<close>: the order in
  which \<^verbatim>\<open>range\<close> visits the protocols and the entries of one protocol (Go leaves
  it open), and how far the file operations of \<^verbatim>\<open>writeFile\<close> get.
\<close>

datatype io_outcome = IoOk | SeekFails | TruncateFails | EncodeFails

record env =
  protoOrder :: "(string \<times> (string \<times> string) list) list \<Rightarrow> (string \<times> (string \<times> string) list) list"
  entryOrder :: "(string \<times> string) list \<Rightarrow> (string \<times> string) list"
  io :: io_outcome

text \<open>A \<^verbatim>\<open>range\<close> visits every entry of the map exactly once.\<close>

definition go_range :: "env \<Rightarrow> bool" where
  "go_range e \<longleftrightarrow> (\<forall>al. mset (protoOrder e al) = mset al) \<and> (\<forall>al. mset (entryOrder e al) = mset al)"

definition NewManager :: "bool \<Rightarrow> string \<Rightarrow> string \<Rightarrow> error + StatusManager" where
  "NewManager opened filePath hook =
     (if \<not> opened then Inl OpenStatusFile
      else Inr \<lparr>hookCmd = hook, file' = Truncated,
                mappings = [(''tcp'', []), (''udp'', [])], encoded = [], spawned = []\<rparr>)"

text \<open>\<^verbatim>\<open>tmp[protocol] = append(tmp[protocol], rec)\<close>; a missing key reads as the nil slice.\<close>

definition append_rec ::
  "string \<Rightarrow> (string \<times> (string \<times> string) list list) list \<Rightarrow> string \<times> string
     \<Rightarrow> (string \<times> (string \<times> string) list list) list" where
  "append_rec protocol tmp entry =
     AList.update protocol
       ((case map_of tmp protocol of None \<Rightarrow> [] | Some recs \<Rightarrow> recs)
          @ [[(''inner'', fst entry), (''outer'', snd entry)]]) tmp"

definition collect :: "env \<Rightarrow> (string \<times> (string \<times> string) list) list
     \<Rightarrow> (string \<times> (string \<times> string) list list) list" where
  "collect e m =
     foldl (\<lambda>tmp (protocol, amap). foldl (append_rec protocol) tmp (entryOrder e amap))
       [(''tcp'', []), (''udp'', [])] (protoOrder e m)"

definition writeFile :: "env \<Rightarrow> StatusManager \<Rightarrow> error option \<times> StatusManager" where
  "writeFile e m =
     (let tmp = collect e (mappings m) in
      case io e of
        SeekFails \<Rightarrow> (Some SeekError, m)
      | TruncateFails \<Rightarrow> (Some TruncateError, m)
      | EncodeFails \<Rightarrow>
          (Some WriteError, m\<lparr>file' := Torn (encode_tmp tmp), encoded := encoded m @ [encode_tmp tmp]\<rparr>)
      | IoOk \<Rightarrow>
          (None, m\<lparr>file' := Document (encode_tmp tmp), encoded := encoded m @ [encode_tmp tmp]\<rparr>))"

definition expandHook :: "StatusManager \<Rightarrow> UpdateEvent \<Rightarrow> string" where
  "expandHook m ev =
     (let s = hookCmd m;
          s = ReplaceAll s ''{inner}'' (InnerAddr ev);
          s = ReplaceAll s ''{outer}'' (OuterAddr ev);
          s = ReplaceAll s ''{protocol}'' (Protocol ev)
      in s)"

text \<open>
  \<^verbatim>\<open>handleEvent\<close>. Reading a nil map finds nothing; writing to it panics. The error
  of \<^verbatim>\<open>writeFile\<close> is only logged, the one of \<^verbatim>\<open>Start\<close> is dropped.
\<close>

definition handleEvent :: "env \<Rightarrow> StatusManager \<Rightarrow> UpdateEvent \<Rightarrow> panic + StatusManager" where
  "handleEvent e m ev =
     (let protocolMap = map_of (mappings m) (Protocol ev);
          old = (case protocolMap of None \<Rightarrow> None | Some pm \<Rightarrow> map_of pm (InnerAddr ev))
      in if old = Some (OuterAddr ev) then Inr m
         else case protocolMap of
           None \<Rightarrow> Inl NilMapWrite
         | Some pm \<Rightarrow>
             (let m1 = m\<lparr>mappings :=
                        AList.update (Protocol ev)
                          (AList.update (InnerAddr ev) (OuterAddr ev) pm) (mappings m)\<rparr>;
                  m2 = snd (writeFile e m1)
              in if hookCmd m2 \<noteq> []
                 then Inr (m2\<lparr>spawned := spawned m2 @ [expandHook m2 ev]\<rparr>)
                 else Inr m2))"

text \<open>\<^verbatim>\<open>Run\<close> takes the events off the channel one by one; a panic ends the process.\<close>

fun handleEvents :: "StatusManager \<Rightarrow> (env \<times> UpdateEvent) list \<Rightarrow> panic + StatusManager" where
  "handleEvents m [] = Inr m"
| "handleEvents m (x # xs) =
     (case handleEvent (fst x) m (snd x) of Inl p \<Rightarrow> Inl p | Inr m' \<Rightarrow> handleEvents m' xs)"

text \<open>
  The shape the specification gives the status file: an object with the keys \<open>tcp\<close>
  and \<open>udp\<close> and nothing else, each an array of objects with the string fields
  \<open>inner\<close> and \<open>outer\<close> and nothing else.
\<close>

fun is_record :: "json \<Rightarrow> bool" where
  "is_record (JObject [(k1, JString a), (k2, JString b)]) = (k1 = ''inner'' \<and> k2 = ''outer'')"
| "is_record _ = False"

fun is_status_doc :: "json \<Rightarrow> bool" where
  "is_status_doc (JObject [(k1, JArray ts), (k2, JArray us)]) =
     (k1 = ''tcp'' \<and> k2 = ''udp'' \<and> list_all is_record ts \<and> list_all is_record us)"
| "is_status_doc _ = False"

text \<open>
  Invariants used below. \<open>recs_ok\<close>: the map \<^verbatim>\<open>tmp\<close> of \<^verbatim>\<open>writeFile\<close> has the two
  protocol keys and holds only inner/outer records. \<open>docs_ok\<close>: the table has the two
  protocol keys, and every document encoded so far has the shape of the status file.
\<close>

definition recs_ok :: "(string \<times> (string \<times> string) list list) list \<Rightarrow> bool" where
  "recs_ok tmp \<longleftrightarrow> map fst tmp = [''tcp'', ''udp''] \<and>
     (\<forall>rs \<in> snd ` set tmp. \<forall>r \<in> set rs. is_record (encode_strmap r))"

definition docs_ok :: "StatusManager \<Rightarrow> bool" where
  "docs_ok m \<longleftrightarrow> map fst (mappings m) = [''tcp'', ''udp''] \<and> list_all is_status_doc (encoded m)
     \<and> (\<forall>d. file' m = Document d \<longrightarrow> is_status_doc d)"

text \<open>Concrete surroundings and events for the examples.\<close>

definition env_ok :: env where
  "env_ok = \<lparr>protoOrder = rev, entryOrder = rev, io = IoOk\<rparr>"

definition env_torn :: env where
  "env_torn = \<lparr>protoOrder = (\<lambda>al. al), entryOrder = (\<lambda>al. al), io = EncodeFails\<rparr>"

definition ev_tcp :: UpdateEvent where
  "ev_tcp = \<lparr>Protocol = ''tcp'', InnerAddr = ''192.168.1.10:34567'', OuterAddr = ''203.0.113.4:51900''\<rparr>"

definition ev_udp :: UpdateEvent where
  "ev_udp = \<lparr>Protocol = ''udp'', InnerAddr = ''192.168.1.10:5000'', OuterAddr = ''203.0.113.4:6000''\<rparr>"

definition ev_sctp :: UpdateEvent where
  "ev_sctp = \<lparr>Protocol = ''sctp'', InnerAddr = ''192.168.1.10:5000'', OuterAddr = ''203.0.113.4:6000''\<rparr>"

definition manager0 :: StatusManager where
  "manager0 = \<lparr>hookCmd = ''echo {protocol} {inner} {outer}'', file' = Truncated,
                mappings = [(''tcp'', []), (''udp'', [])], encoded = [], spawned = []\<rparr>"

subsection \<open>Slices, strings.LastIndex and strconv.Atoi\<close>

text \<open>
  \<^verbatim>\<open>a[:p]\<close> and \<^verbatim>\<open>a[p:]\<close> on a string, with the run-time bounds check of Go: an
  index below 0 or above the length panics.
\<close>

definition slice_to :: "string \<Rightarrow> int \<Rightarrow> panic + string" where
  "slice_to a p = (if 0 \<le> p \<and> p \<le> int (length a) then Inr (take (nat p) a)
                   else Inl SliceBoundsOutOfRange)"

definition slice_from :: "string \<Rightarrow> int \<Rightarrow> panic + string" where
  "slice_from a p = (if 0 \<le> p \<and> p \<le> int (length a) then Inr (drop (nat p) a)
                     else Inl SliceBoundsOutOfRange)"

text \<open>\<^verbatim>\<open>strings.LastIndex(s, c)\<close> for a one-byte \<open>c\<close>: the last position of \<open>c\<close>, or -1.\<close>

fun LastIndex :: "string \<Rightarrow> char \<Rightarrow> int" where
  "LastIndex [] c = -1"
| "LastIndex (x # xs) c =
     (let i = LastIndex xs c in if 0 \<le> i then i + 1 else if x = c then 0 else -1)"

text \<open>
  \<^verbatim>\<open>int\<close> has 64 bits on the platforms the README builds for (\<open>GOARCH=amd64\<close>).
  \<open>wrap64\<close> is the conversion to \<^verbatim>\<open>int64\<close>, which keeps the low 64 bits.
\<close>

definition intSize :: nat where
  "intSize = 64"

definition wrap64 :: "int \<Rightarrow> int" where
  "wrap64 x = (x + 2 ^ 63) mod 2 ^ 64 - 2 ^ 63"

text \<open>
  \<^verbatim>\<open>strconv.ParseUint(s, 10, 0)\<close>: the digits are read from the left; a byte that is
  not a decimal digit is a syntax error with value 0, and a value beyond 64 bits is a
  range error with the largest value, reported at the digit that overflows.
\<close>

definition is_digit :: "char \<Rightarrow> bool" where
  "is_digit c \<longleftrightarrow> (48::nat) \<le> of_char c \<and> (of_char c :: nat) \<le> 57"

definition digit_of :: "char \<Rightarrow> nat" where
  "digit_of c = of_char c - 48"

fun parse_digits :: "nat \<Rightarrow> string \<Rightarrow> nat \<times> error option" where
  "parse_digits n [] = (n, None)"
| "parse_digits n (c # cs) =
     (if \<not> is_digit c then (0, Some ErrSyntax)
      else if (2 ^ intSize - 1) div 10 + 1 \<le> n then (2 ^ intSize - 1, Some ErrRange)
      else if 2 ^ intSize - 1 < n * 10 + digit_of c then (2 ^ intSize - 1, Some ErrRange)
      else parse_digits (n * 10 + digit_of c) cs)"

definition ParseUint :: "string \<Rightarrow> nat \<times> error option" where
  "ParseUint s = (if s = [] then (0, Some ErrSyntax) else parse_digits 0 s)"

text \<open>
  \<^verbatim>\<open>strconv.ParseInt(s, 10, 0)\<close>: an optional sign, then \<^verbatim>\<open>ParseUint\<close>; a syntax
  error gives 0, a magnitude that does not fit gives the nearest bound of \<^verbatim>\<open>int64\<close>.
\<close>

definition ParseInt :: "string \<Rightarrow> int \<times> error option" where
  "ParseInt s =
     (if s = [] then (0, Some ErrSyntax)
      else let neg = (hd s = CHR ''-'');
               s1 = (if hd s = CHR ''+'' \<or> hd s = CHR ''-'' then tl s else s);
               (un, err) = ParseUint s1
           in if err = Some ErrSyntax then (0, err)
              else if \<not> neg \<and> 2 ^ (intSize - 1) \<le> un then (2 ^ (intSize - 1) - 1, Some ErrRange)
              else if neg \<and> 2 ^ (intSize - 1) < un then (- (2 ^ (intSize - 1)), Some ErrRange)
              else (if neg then wrap64 (- wrap64 (int un)) else wrap64 (int un), None))"

text \<open>
  \<^verbatim>\<open>strconv.Atoi\<close> is \<^verbatim>\<open>ParseInt(s, 10, 0)\<close> converted to \<^verbatim>\<open>int\<close>; its fast
  path for short strings computes the same result.
\<close>

definition Atoi :: "string \<Rightarrow> int \<times> error option" where
  "Atoi s = ParseInt s"




subsection \<open>package forward and package stun: the records the orchestrator builds\<close>

record TCPForwarder =
  ListenAddr :: string
  TargetAddr :: string

text \<open>\<^verbatim>\<open>time.Duration\<close> is an \<^verbatim>\<open>int64\<close> count of nanoseconds.\<close>

type_synonym Duration = int

definition Second :: Duration where
  "Second = 1000000000"

text \<open>\<^verbatim>\<open>net.IP\<close> is a byte slice; the nil slice is the empty list.\<close>

type_synonym IP = "8 word list"

record Client =
  tcpServers :: "string list"
  udpServers :: "string list"
  timeout :: Duration
  bindIP :: IP

definition NewClient :: "string list \<Rightarrow> string list \<Rightarrow> Duration \<Rightarrow> Client" where
  "NewClient tcp udp t = \<lparr>tcpServers = tcp, udpServers = udp, timeout = t, bindIP = []\<rparr>"

definition SetBindIP :: "Client \<Rightarrow> IP \<Rightarrow> Client" where
  "SetBindIP c ip = c\<lparr>bindIP := ip\<rparr>"

subsection \<open>package config and package orchestrator\<close>

record Config =
  StunServer_TCP :: "string list"
  StunServer_UDP :: "string list"
  KeepAlive :: string
  Interval :: int
  OpenPort_TCP :: "string list"
  OpenPort_UDP :: "string list"
  ForwardPort_TCP :: "string list"
  ForwardPort_UDP :: "string list"
  Hook :: string
  StatusFile :: string
  EnableUPnP :: bool

text \<open>\<^verbatim>\<open>net.TCPAddr\<close> and \<^verbatim>\<open>net.UDPAddr\<close>, as far as they are used: an IP and a port.\<close>

record Addr =
  IP :: IP
  Port :: int

record Natter =
  cfg :: Config
  stunClient :: Client
  statusMgr :: StatusManager
  interval :: Duration
  tcpOpens :: "Addr list"
  udpOpens :: "Addr list"
  tcpFwds :: "TCPForwarder list"

definition splitAddr :: "string \<Rightarrow> panic + string \<times> int" where
  "splitAddr a =
     (let p = LastIndex a CHR '':'' in
      case slice_to a p of
        Inl e \<Rightarrow> Inl e
      | Inr h \<Rightarrow>
          (case slice_from a (p + 1) of
             Inl e \<Rightarrow> Inl e
           | Inr t \<Rightarrow> Inr (h, fst (Atoi t))))"

definition portOf :: "string \<Rightarrow> panic + string" where
  "portOf addr = (let idx = LastIndex addr CHR '':'' in slice_from addr (idx + 1))"

text \<open>
  The two loops over the open ports: \<^verbatim>\<open>splitAddr\<close>, then \<^verbatim>\<open>net.ParseIP\<close> (a
  parameter here; it never panics) on the host part.
\<close>

fun parse_opens :: "(string \<Rightarrow> IP) \<Rightarrow> string list \<Rightarrow> panic + Addr list" where
  "parse_opens parseIP [] = Inr []"
| "parse_opens parseIP (a # as) =
     (case splitAddr a of
        Inl e \<Rightarrow> Inl e
      | Inr (h, p) \<Rightarrow>
          (case parse_opens parseIP as of
             Inl e \<Rightarrow> Inl e
           | Inr rest \<Rightarrow> Inr (\<lparr>IP = parseIP h, Port = p\<rparr> # rest)))"

text \<open>
  The loop of the one-to-one mode, \<^verbatim>\<open>for i, target := range cfg.ForwardPort.TCP\<close> with
  \<^verbatim>\<open>cfg.OpenPort.TCP[i]\<close>; an index beyond the open ports would panic.
\<close>

fun paired_fwds :: "string list \<Rightarrow> nat \<Rightarrow> string list \<Rightarrow> panic + TCPForwarder list" where
  "paired_fwds opens i [] = Inr []"
| "paired_fwds opens i (target # targets) =
     (if length opens \<le> i then Inl IndexOutOfRange
      else case paired_fwds opens (Suc i) targets of
             Inl e \<Rightarrow> Inl e
           | Inr rest \<Rightarrow> Inr (\<lparr>ListenAddr = opens ! i, TargetAddr = target\<rparr> # rest))"

text \<open>The loop of the old mode: listen on the port of the target.\<close>

fun target_fwds :: "string list \<Rightarrow> panic + TCPForwarder list" where
  "target_fwds [] = Inr []"
| "target_fwds (target # targets) =
     (case portOf target of
        Inl e \<Rightarrow> Inl e
      | Inr port \<Rightarrow>
          (case target_fwds targets of
             Inl e \<Rightarrow> Inl e
           | Inr rest \<Rightarrow> Inr (\<lparr>ListenAddr = ''0.0.0.0:'' @ port, TargetAddr = target\<rparr> # rest)))"

text \<open>
  \<^verbatim>\<open>New\<close>. \<open>opened\<close> tells whether the status file can be opened. The result is a
  panic, or what \<^verbatim>\<open>New\<close> returns: an error, or the orchestrator.
\<close>

definition New :: "(string \<Rightarrow> IP) \<Rightarrow> bool \<Rightarrow> Config \<Rightarrow> panic + (error + Natter)" where
  "New parseIP opened c =
     (case NewManager opened (StatusFile c) (Hook c) of
        Inl err \<Rightarrow> Inr (Inl err)
      | Inr sm \<Rightarrow>
          (case parse_opens parseIP (OpenPort_TCP c) of
             Inl e \<Rightarrow> Inl e
           | Inr topens \<Rightarrow>
               (case parse_opens parseIP (OpenPort_UDP c) of
                  Inl e \<Rightarrow> Inl e
                | Inr uopens \<Rightarrow>
                    (case (if length (OpenPort_TCP c) = length (ForwardPort_TCP c)
                           then paired_fwds (OpenPort_TCP c) 0 (ForwardPort_TCP c)
                           else target_fwds (ForwardPort_TCP c)) of
                       Inl e \<Rightarrow> Inl e
                     | Inr fwds \<Rightarrow>
                         Inr (Inr \<lparr>cfg = c,
                                   stunClient = NewClient (StunServer_TCP c) (StunServer_UDP c) Second,
                                   statusMgr = sm,
                                   interval = wrap64 (wrap64 (Interval c) * Second),
                                   tcpOpens = topens, udpOpens = uopens, tcpFwds = fwds\<rparr>)))))"

text \<open>The text after the last \<open>:\<close> of an address, as the specification describes the port.\<close>

definition after_last_colon :: "string \<Rightarrow> string" where
  "after_last_colon t = rev (takeWhile (\<lambda>c. c \<noteq> CHR '':'') (rev t))"

text \<open>A stand-in for \<^verbatim>\<open>net.ParseIP\<close> in the examples.\<close>

definition parseIP0 :: "string \<Rightarrow> IP" where
  "parseIP0 h = (if h = ''0.0.0.0'' then [0, 0, 0, 0] else if h = ''192.168.1.10'' then [192, 168, 1, 10] else [])"

definition config0 :: Config where
  "config0 = \<lparr>StunServer_TCP = [''stun.l.google.com''], StunServer_UDP = [''stun.l.google.com''],
     KeepAlive = ''www.qq.com'', Interval = 10,
     OpenPort_TCP = [''0.0.0.0:34567''], OpenPort_UDP = [],
     ForwardPort_TCP = [''192.168.1.1:80''], ForwardPort_UDP = [],
     Hook = ''echo {protocol} {inner} {outer}'', StatusFile = ''status.json'', EnableUPnP = False\<rparr>"

subsection \<open>package stun: the client\<close>

record Mapping =
  InternalIP :: IP
  InternalPort :: int
  ExternalIP :: IP
  ExternalPort :: int

record XORMappedAddress =
  xorIP :: IP
  xorPort :: int

text \<open>
  What the network and the STUN library decide for one server. The callback of
  \<^verbatim>\<open>client.Do\<close> receives an event: an error (a timeout, say), or a message, for
  which \<open>EventMessage g x\<close> gives the error \<open>g\<close> that \<^verbatim>\<open>xorAddr.GetFrom\<close> returns
  and the address \<open>x\<close> it leaves in \<^verbatim>\<open>xorAddr\<close>. An attempt fails to resolve the
  server, fails to connect, fails inside \<^verbatim>\<open>client.Do\<close>, which then returns the
  error, or completes: \<^verbatim>\<open>client.Do\<close> waits until the callback has run on the
  event and returns nil, whatever the event is.
\<close>

datatype Event = EventError error | EventMessage "error option" XORMappedAddress

datatype attempt = ResolveFails | DialFails | DoFails error | Completes Event

text \<open>What the callback, run on \<open>ev\<close>, leaves in \<^verbatim>\<open>xorAddr\<close> and in its error variable.\<close>

definition callback_addr :: "Event \<Rightarrow> XORMappedAddress" where
  "callback_addr ev =
     (case ev of
        EventError e \<Rightarrow> \<lparr>xorIP = [], xorPort = 0\<rparr>
      | EventMessage g x \<Rightarrow> x)"

definition callback_err :: "Event \<Rightarrow> error option" where
  "callback_err ev =
     (case ev of
        EventError e \<Rightarrow> Some e
      | EventMessage g x \<Rightarrow> g)"

text \<open>
  \<^verbatim>\<open>GetUDPMapping\<close>. \<open>net i\<close> is the fate of the attempt at the \<open>i\<close>-th server. The
  result comes with the addresses tried, in order. The callback assigns to the same
  variable \<^verbatim>\<open>err\<close> that the statement \<^verbatim>\<open>err = client.Do(...)\<close> assigns to once the
  call has returned: after a completed transaction \<^verbatim>\<open>err\<close> is nil, the test
  \<^verbatim>\<open>err != nil\<close> fails and the mapping is built from \<^verbatim>\<open>xorAddr\<close>.
\<close>

fun GetUDPMapping_from ::
  "Client \<Rightarrow> int \<Rightarrow> (nat \<Rightarrow> attempt) \<Rightarrow> nat \<Rightarrow> string list \<Rightarrow> (error + Mapping) \<times> string list" where
  "GetUDPMapping_from c srcPort net i [] = (Inl AllUDPServersFailed, [])"
| "GetUDPMapping_from c srcPort net i (server # servers) =
     (let addr = server @ '':3478'';
          continue = (let (r, tried) = GetUDPMapping_from c srcPort net (Suc i) servers
                      in (r, addr # tried))
      in case net i of
           ResolveFails \<Rightarrow> continue
         | DialFails \<Rightarrow> continue
         | DoFails e \<Rightarrow> continue
         | Completes ev \<Rightarrow>
             (let xorAddr = callback_addr ev
              in (Inr \<lparr>InternalIP = bindIP c, InternalPort = srcPort,
                        ExternalIP = xorIP xorAddr, ExternalPort = xorPort xorAddr\<rparr>,
                  [addr])))"

definition GetUDPMapping :: "Client \<Rightarrow> int \<Rightarrow> (nat \<Rightarrow> attempt) \<Rightarrow> (error + Mapping) \<times> string list" where
  "GetUDPMapping c srcPort net = GetUDPMapping_from c srcPort net 0 (udpServers c)"

text \<open>
  \<^verbatim>\<open>GetTCPMapping\<close>. The dialer resolves and connects in one step, and the callback
  has a variable of its own, \<^verbatim>\<open>txnErr\<close>, which is tested after the call.
\<close>

fun GetTCPMapping_from ::
  "Client \<Rightarrow> int \<Rightarrow> (nat \<Rightarrow> attempt) \<Rightarrow> nat \<Rightarrow> string list \<Rightarrow> (error + Mapping) \<times> string list" where
  "GetTCPMapping_from c srcPort net i [] = (Inl AllTCPServersFailed, [])"
| "GetTCPMapping_from c srcPort net i (server # servers) =
     (let addr = server @ '':3478'';
          continue = (let (r, tried) = GetTCPMapping_from c srcPort net (Suc i) servers
                      in (r, addr # tried))
      in case net i of
           ResolveFails \<Rightarrow> continue
         | DialFails \<Rightarrow> continue
         | DoFails e \<Rightarrow> continue
         | Completes ev \<Rightarrow>
             (let xorAddr = callback_addr ev;
                  txnErr = callback_err ev
              in if txnErr \<noteq> None then continue
                 else (Inr \<lparr>InternalIP = bindIP c, InternalPort = srcPort,
                             ExternalIP = xorIP xorAddr, ExternalPort = xorPort xorAddr\<rparr>,
                       [addr])))"

definition GetTCPMapping :: "Client \<Rightarrow> int \<Rightarrow> (nat \<Rightarrow> attempt) \<Rightarrow> (error + Mapping) \<times> string list" where
  "GetTCPMapping c srcPort net = GetTCPMapping_from c srcPort net 0 (tcpServers c)"

text \<open>
  The reading of the specification: an attempt succeeds when the transaction ran
  without error and the response carried the address; the servers are tried in order up
  to the first success.
\<close>

fun succeeds :: "attempt \<Rightarrow> bool" where
  "succeeds (Completes (EventMessage None x)) = True"
| "succeeds _ = False"

fun answer :: "attempt \<Rightarrow> XORMappedAddress" where
  "answer (Completes ev) = callback_addr ev"
| "answer _ = \<lparr>xorIP = [], xorPort = 0\<rparr>"

text \<open>The first of the \<open>k\<close> attempts from the \<open>i\<close>-th on that has the property \<open>P\<close>.\<close>

fun first_where :: "(attempt \<Rightarrow> bool) \<Rightarrow> (nat \<Rightarrow> attempt) \<Rightarrow> nat \<Rightarrow> nat \<Rightarrow> nat option" where
  "first_where P net i 0 = None"
| "first_where P net i (Suc k) = (if P (net i) then Some i else first_where P net (Suc i) k)"

text \<open>An attempt completes when \<^verbatim>\<open>client.Do\<close> returns nil, whatever the callback saw.\<close>

fun completes :: "attempt \<Rightarrow> bool" where
  "completes (Completes ev) = True"
| "completes _ = False"

subsection \<open>package orchestrator: the worker\<close>

text \<open>\<^verbatim>\<open>%d\<close> of \<^verbatim>\<open>fmt.Sprintf\<close>.\<close>

function digits_of :: "nat \<Rightarrow> string" where
  "digits_of n = (if n < 10 then [''0123456789'' ! n]
                  else digits_of (n div 10) @ [''0123456789'' ! (n mod 10)])"
  by pat_completeness auto
termination
  by (relation "measure (\<lambda>n. n)") auto

definition Itoa :: "int \<Rightarrow> string" where
  "Itoa i = (if i < 0 then CHR ''-'' # digits_of (nat (- i)) else digits_of (nat i))"

text \<open>\<^verbatim>\<open>strings.Split(s, c)\<close> for a one-byte separator.\<close>

fun Split :: "string \<Rightarrow> char \<Rightarrow> string list" where
  "Split [] c = [[]]"
| "Split (x # xs) c =
     (if x = c then [] # Split xs c
      else case Split xs c of [] \<Rightarrow> [[x]] | p # ps \<Rightarrow> (x # p) # ps)"

text \<open>
  \<^verbatim>\<open>formatInner\<close>, on the text \<open>s\<close> of the address and the text of the outbound IP.
\<close>

definition formatInner :: "string \<Rightarrow> string \<Rightarrow> panic + string" where
  "formatInner s outbound =
     (if take 8 s = ''0.0.0.0:''
      then (let parts = Split s CHR '':''
            in if 1 < length parts then Inr (outbound @ '':'' @ parts ! 1) else Inl IndexOutOfRange)
      else Inr s)"

text \<open>
  A \<^verbatim>\<open>net.Addr\<close> is a TCP or a UDP address; the type assertion of the worker panics
  on the other kind.
\<close>

datatype net_addr = TCPAddr Addr | UDPAddr Addr

text \<open>The library functions \<^verbatim>\<open>IP.String\<close> and \<^verbatim>\<open>Addr.String\<close> are parameters.\<close>

record netlib =
  ipString :: "IP \<Rightarrow> string"
  addrString :: "net_addr \<Rightarrow> string"

definition probe :: "Client \<Rightarrow> string \<Rightarrow> net_addr \<Rightarrow> (nat \<Rightarrow> attempt) \<Rightarrow> panic + (error + Mapping)" where
  "probe c proto addr net =
     (if proto = ''tcp''
      then (case addr of
              TCPAddr a \<Rightarrow> Inr (fst (GetTCPMapping c (Port a) net))
            | UDPAddr a \<Rightarrow> Inl TypeAssertion)
      else (case addr of
              UDPAddr a \<Rightarrow> Inr (fst (GetUDPMapping c (Port a) net))
            | TCPAddr a \<Rightarrow> Inl TypeAssertion))"

text \<open>\<^verbatim>\<open>fmt.Sprintf("%s:%d", res.ExternalIP, res.ExternalPort)\<close>.\<close>

definition outer_of :: "netlib \<Rightarrow> Mapping \<Rightarrow> string" where
  "outer_of lib res = ipString lib (ExternalIP res) @ '':'' @ Itoa (ExternalPort res)"

text \<open>
  The loop of \<^verbatim>\<open>runWorker\<close>, from the value \<open>lastOuter\<close> on. Each element of the list
  is the network as one round of the loop finds it; the context is cancelled after the
  last one. The result is the list of events sent to the channel of the status manager.
\<close>

fun worker_loop ::
  "netlib \<Rightarrow> Client \<Rightarrow> string \<Rightarrow> net_addr \<Rightarrow> string \<Rightarrow> string \<Rightarrow> (nat \<Rightarrow> attempt) list
     \<Rightarrow> panic + UpdateEvent list" where
  "worker_loop lib c proto addr inner lastOuter [] = Inr []"
| "worker_loop lib c proto addr inner lastOuter (net # nets) =
     (case probe c proto addr net of
        Inl p \<Rightarrow> Inl p
      | Inr (Inl err) \<Rightarrow> worker_loop lib c proto addr inner lastOuter nets
      | Inr (Inr res) \<Rightarrow>
          (let outer = outer_of lib res
           in if outer \<noteq> lastOuter
              then (case worker_loop lib c proto addr inner outer nets of
                      Inl p \<Rightarrow> Inl p
                    | Inr evs \<Rightarrow>
                        Inr (\<lparr>Protocol = proto, InnerAddr = inner, OuterAddr = outer\<rparr> # evs))
              else worker_loop lib c proto addr inner lastOuter nets))"

definition runWorker ::
  "netlib \<Rightarrow> IP \<Rightarrow> Natter \<Rightarrow> string \<Rightarrow> net_addr \<Rightarrow> (nat \<Rightarrow> attempt) list \<Rightarrow> panic + UpdateEvent list" where
  "runWorker lib outboundIP n proto addr nets =
     (case formatInner (addrString lib addr) (ipString lib outboundIP) of
        Inl p \<Rightarrow> Inl p
      | Inr inner \<Rightarrow> worker_loop lib (stunClient n) proto addr inner [] nets)"

text \<open>The outer addresses of the rounds whose probe returned a mapping, in order.\<close>

fun observed :: "netlib \<Rightarrow> Client \<Rightarrow> string \<Rightarrow> net_addr \<Rightarrow> (nat \<Rightarrow> attempt) list \<Rightarrow> string list" where
  "observed lib c proto addr [] = []"
| "observed lib c proto addr (net # nets) =
     (case probe c proto addr net of
        Inr (Inr res) \<Rightarrow> outer_of lib res # observed lib c proto addr nets
      | _ \<Rightarrow> observed lib c proto addr nets)"

text \<open>A library, a client, an orchestrator and some fates of attempts for the examples.\<close>

definition lib0 :: netlib where
  "lib0 = \<lparr>ipString = (\<lambda>ip. if ip = [203, 0, 113, 4] then ''203.0.113.4''
                           else if ip = [192, 168, 1, 10] then ''192.168.1.10'' else ''<nil>''),
            addrString = (\<lambda>a. case a of TCPAddr x \<Rightarrow> ''0.0.0.0:'' @ Itoa (Port x)
                                        | UDPAddr x \<Rightarrow> ''0.0.0.0:'' @ Itoa (Port x))\<rparr>"

definition client0 :: Client where
  "client0 = \<lparr>tcpServers = [''stun.l.google.com'', ''stun1.l.google.com''],
               udpServers = [''stun.l.google.com'', ''stun1.l.google.com''],
               timeout = Second, bindIP = [192, 168, 1, 10]\<rparr>"

definition natter0 :: Natter where
  "natter0 = \<lparr>cfg = config0, stunClient = client0, statusMgr = manager0, interval = 10 * Second,
               tcpOpens = [\<lparr>IP = [0, 0, 0, 0], Port = 34567\<rparr>], udpOpens = [],
               tcpFwds = [\<lparr>ListenAddr = ''0.0.0.0:34567'', TargetAddr = ''192.168.1.1:80''\<rparr>]\<rparr>"

definition answers :: "int \<Rightarrow> attempt" where
  "answers p = Completes (EventMessage None \<lparr>xorIP = [203, 0, 113, 4], xorPort = p\<rparr>)"

definition times_out :: attempt where
  "times_out = Completes (EventError TransactionError)"

subsection \<open>package keepalive\<close>

text \<open>
  \<^verbatim>\<open>float64(d)\<close> for an \<^verbatim>\<open>int64\<close> \<open>d\<close>: a value of up to 53 bits is kept, a longer
  one is rounded to 53 significant bits, ties to even. The result is a whole number
  either way, so the floating-point values that occur are modelled by integers.
\<close>

function bit_length :: "nat \<Rightarrow> nat" where
  "bit_length n = (if n = 0 then 0 else Suc (bit_length (n div 2)))"
  by pat_completeness auto
termination
  by (relation "measure (\<lambda>n. n)") auto

declare bit_length.simps [simp del]

definition round_even :: "nat \<Rightarrow> nat \<Rightarrow> nat" where
  "round_even k a =
     (let q = a div 2 ^ k; r = a mod 2 ^ k
      in (if 2 ^ k < 2 * r \<or> (2 * r = 2 ^ k \<and> odd q) then q + 1 else q) * 2 ^ k)"

definition float64 :: "int \<Rightarrow> int" where
  "float64 x =
     (let a = nat \<bar>x\<bar>; n = bit_length a
      in if n \<le> 53 then x else sgn x * int (round_even (n - 53) a))"

text \<open>
  \<^verbatim>\<open>time.Duration(f)\<close> for a whole \<open>f\<close>; beyond \<^verbatim>\<open>int64\<close> the conversion yields
  the smallest \<^verbatim>\<open>int64\<close> on amd64.
\<close>

definition int64_of_float64 :: "int \<Rightarrow> int" where
  "int64_of_float64 f = (if - (2 ^ 63) \<le> f \<and> f < 2 ^ 63 then f else - (2 ^ 63))"

definition minInterval :: "Duration \<Rightarrow> Duration" where
  "minInterval d = (if d \<le> 0 then 5 * Second else d)"

text \<open>
  \<^verbatim>\<open>time.Duration(math.Min(float64(backoff*2), float64(60*time.Second)))\<close>; the
  product is an \<^verbatim>\<open>int64\<close> product and wraps.
\<close>

definition next_backoff :: "Duration \<Rightarrow> Duration" where
  "next_backoff b =
     int64_of_float64 (min (float64 (wrap64 (b * 2))) (float64 (wrap64 (60 * Second))))"

text \<open>
  One round of the loop of \<^verbatim>\<open>TCPKeepAlive\<close>. The surroundings decide whether the
  dial succeeds (asked only without a connection), whether the write of the request
  succeeds, and whether the reads end in the expected timeout or in another error. The
  state is the connection (present or nil) and the backoff; the round reports what it
  did: dials, requests written, waits with their length.
\<close>

record ka_round =
  dial_ok :: bool
  write_ok :: bool
  read_ok :: bool

record ka_state =
  conn :: bool
  backoff :: Duration

datatype ka_action = Dial bool | Head bool | Wait Duration

definition ka_step :: "Duration \<Rightarrow> ka_state \<Rightarrow> ka_round \<Rightarrow> ka_state \<times> ka_action list" where
  "ka_step iv s r =
     (if \<not> conn s \<and> \<not> dial_ok r
      then (\<lparr>conn = False, backoff = next_backoff (backoff s)\<rparr>, [Dial False, Wait (backoff s)])
      else
        (let dialed = (if conn s then [] else [Dial True]);
             b = (if conn s then backoff s else iv)
         in if \<not> write_ok r then (\<lparr>conn = False, backoff = b\<rparr>, dialed @ [Head False])
            else (\<lparr>conn = read_ok r, backoff = b\<rparr>, dialed @ [Head True, Wait iv])))"

fun ka_loop :: "Duration \<Rightarrow> ka_state \<Rightarrow> ka_round list \<Rightarrow> ka_state \<times> ka_action list" where
  "ka_loop iv s [] = (s, [])"
| "ka_loop iv s (r # rs) =
     (let (s1, acts1) = ka_step iv s r;
          (s2, acts2) = ka_loop iv s1 rs
      in (s2, acts1 @ acts2))"

text \<open>
  \<^verbatim>\<open>TCPKeepAlive\<close>, for the rounds that begin before the context is cancelled: the
  interval is clamped, the connection starts as nil, the backoff as the interval.
\<close>

definition TCPKeepAlive :: "Duration \<Rightarrow> ka_round list \<Rightarrow> ka_state \<times> ka_action list" where
  "TCPKeepAlive d rounds =
     ka_loop (minInterval d) \<lparr>conn = False, backoff = minInterval d\<rparr> rounds"

text \<open>The invariant of the loop, and two rounds for the examples.\<close>

definition ka_inv :: "Duration \<Rightarrow> ka_state \<Rightarrow> bool" where
  "ka_inv iv s \<longleftrightarrow> 0 < backoff s \<and> backoff s \<le> max iv (60 * Second) \<and> (conn s \<longrightarrow> backoff s = iv)"

definition dial_fails :: ka_round where
  "dial_fails = \<lparr>dial_ok = False, write_ok = True, read_ok = True\<rparr>"

definition all_well :: ka_round where
  "all_well = \<lparr>dial_ok = True, write_ok = True, read_ok = True\<rparr>"

text \<open>
  One round of the loop of \<^verbatim>\<open>UDPKeepAlive\<close>. The surroundings decide the remote
  address that \<^verbatim>\<open>resolve\<close> yields (\<open>None\<close> is nil), what \<^verbatim>\<open>crypto/rand\<close> delivers
  for the two bytes of the transaction ID, the number \<^verbatim>\<open>mr.Intn(0xffff)\<close> returns if
  it is asked, and whether \<^verbatim>\<open>WriteTo\<close> succeeds. The round reports the datagrams it
  hands to \<^verbatim>\<open>conn.WriteTo\<close>, each with its destination.
\<close>

datatype rand_read = RandOk "8 word" "8 word" | RandErr

record udp_round =
  raddr :: "string option"
  rand_bytes :: rand_read
  mr_Intn :: nat
  writeto_ok :: bool

text \<open>\<^verbatim>\<open>binary.BigEndian.PutUint16\<close>.\<close>

definition PutUint16 :: "16 word \<Rightarrow> 8 word list" where
  "PutUint16 v = [ucast (drop_bit 8 v), ucast v]"

definition keepalive_txid :: "udp_round \<Rightarrow> 8 word list" where
  "keepalive_txid r =
     (case rand_bytes r of
        RandOk b0 b1 \<Rightarrow> [b0, b1]
      | RandErr \<Rightarrow> PutUint16 (of_nat (mr_Intn r)))"

definition keepalive_pkt :: "8 word list \<Rightarrow> 8 word list" where
  "keepalive_pkt txid =
     (let header = txid @ [0x01, 0x00, 0x00, 0x01, 0x00, 0x00, 0x00, 0x00, 0x00, 0x00];
          qname = [0x09, of_char CHR ''k'', of_char CHR ''e'', of_char CHR ''e'', of_char CHR ''p'',
                   of_char CHR ''a'', of_char CHR ''l'', of_char CHR ''i'', of_char CHR ''v'',
                   of_char CHR ''e'', 0x06, of_char CHR ''n'', of_char CHR ''a'', of_char CHR ''t'',
                   of_char CHR ''t'', of_char CHR ''e'', of_char CHR ''r'', 0x00];
          question = [0x00, 0x01, 0x00, 0x01]
      in header @ (qname @ question))"

definition udp_round_sends :: "udp_round \<Rightarrow> (string \<times> 8 word list) list" where
  "udp_round_sends r =
     (case raddr r of
        None \<Rightarrow> []
      | Some a \<Rightarrow> [(a, keepalive_pkt (keepalive_txid r))])"

text \<open>
  \<^verbatim>\<open>UDPKeepAlive\<close>, for the rounds that begin before the context is cancelled: the
  datagrams handed to \<^verbatim>\<open>WriteTo\<close>, round by round. The first round starts at once,
  each later one at a tick.
\<close>

fun UDPKeepAlive :: "udp_round list \<Rightarrow> (string \<times> 8 word list) list list" where
  "UDPKeepAlive [] = []"
| "UDPKeepAlive (r # rs) = udp_round_sends r # UDPKeepAlive rs"

text \<open>
  The DNS query the specification describes: a 16-bit transaction ID, the flags
  \<open>0x0100\<close>, one question and no other records, the name in length-prefixed labels
  with a closing zero, type A and class IN, and nothing after the question.
\<close>

definition u16 :: "nat \<Rightarrow> 8 word list" where
  "u16 n = [of_nat (n div 256), of_nat (n mod 256)]"

definition dns_name :: "string \<Rightarrow> 8 word list" where
  "dns_name name =
     concat (map (\<lambda>l. of_nat (length l) # map of_char l) (Split name CHR ''.'')) @ [0]"

definition dns_query :: "8 word \<Rightarrow> 8 word \<Rightarrow> string \<Rightarrow> 8 word list" where
  "dns_query t0 t1 name =
     [t0, t1] @ [0x01, 0x00] @ u16 1 @ u16 0 @ u16 0 @ u16 0 @ dns_name name @ u16 1 @ u16 1"

definition round_ok :: udp_round where
  "round_ok = \<lparr>raddr = Some ''119.29.29.29:34567'', rand_bytes = RandOk 0xAB 0xCD, mr_Intn = 0,
               writeto_ok = True\<rparr>"

definition round_unresolved :: udp_round where
  "round_unresolved = \<lparr>raddr = None, rand_bytes = RandOk 0xAB 0xCD, mr_Intn = 0, writeto_ok = True\<rparr>"

subsection \<open>The sockets on a monitored port\<close>

text \<open>
  The build is for Unix (\<^verbatim>\<open>linux || darwin\<close>) or for Windows. A \<^verbatim>\<open>Control\<close> hook
  is the list of its \<^verbatim>\<open>setsockopt\<close> calls, run on the new socket before it is bound;
  a nil hook is \<open>None\<close>. Without a hook the \<^verbatim>\<open>net\<close> package sets none of these
  options on a dialing or a packet socket.
\<close>

datatype platform = Unix | Windows

datatype sockopt = SO_REUSEADDR | SO_REUSEPORT | SO_EXCLUSIVEADDRUSE

type_synonym control = "(sockopt \<times> int) list"

record Dialer =
  LocalAddr :: Addr
  Timeout :: Duration
  Control :: "control option"

record ListenConfig =
  ListenControl :: "control option"

text \<open>A socket as the kernel sees it made: its network and the options set before bind.\<close>

datatype socket = Socket string "control option"

text \<open>
  WinSock numbers its options: \<^verbatim>\<open>SO_REUSEADDR\<close> is 4, and \<^verbatim>\<open>SO_EXCLUSIVEADDRUSE\<close> is
  the bitwise complement of that, -5. The three Windows files declare
  \<^verbatim>\<open>const soExclusiveAddrUse = 0x0004\<close>, so the call made with this constant addresses
  \<^verbatim>\<open>SO_REUSEADDR\<close>: the hook first writes 0 to it, then 1. A call with a number that
  names no option fails, and the hook drops the error.
\<close>

definition soExclusiveAddrUse :: int where
  "soExclusiveAddrUse = 0x0004"

definition windows_SO_REUSEADDR :: int where
  "windows_SO_REUSEADDR = 4"

definition winsock_option :: "int \<Rightarrow> sockopt option" where
  "winsock_option n =
     (if n = 4 then Some SO_REUSEADDR else if n = - 5 then Some SO_EXCLUSIVEADDRUSE else None)"

definition windows_calls :: "(int \<times> int) list \<Rightarrow> control" where
  "windows_calls cs =
     concat (map (\<lambda>(n, v). case winsock_option n of None \<Rightarrow> [] | Some k \<Rightarrow> [(k, v)]) cs)"

text \<open>\<^verbatim>\<open>newBoundDialer\<close> of package stun, in its two build variants.\<close>

definition newBoundDialer :: "platform \<Rightarrow> Addr \<Rightarrow> Duration \<Rightarrow> Dialer" where
  "newBoundDialer p laddr t =
     (case p of
        Unix \<Rightarrow> \<lparr>LocalAddr = laddr, Timeout = t,
                  Control = Some [(SO_REUSEADDR, 1), (SO_REUSEPORT, 1)]\<rparr>
      | Windows \<Rightarrow> \<lparr>LocalAddr = laddr, Timeout = t,
                     Control = Some (windows_calls [(soExclusiveAddrUse, 0),
                                                    (windows_SO_REUSEADDR, 1)])\<rparr>)"

text \<open>\<^verbatim>\<open>newDialerWithReuse\<close> of package keepalive, in its two build variants.\<close>

definition newDialerWithReuse :: "platform \<Rightarrow> Addr \<Rightarrow> Dialer" where
  "newDialerWithReuse p laddr =
     (case p of
        Unix \<Rightarrow> \<lparr>LocalAddr = laddr, Timeout = 3 * Second,
                  Control = Some [(SO_REUSEADDR, 1), (SO_REUSEPORT, 1)]\<rparr>
      | Windows \<Rightarrow> \<lparr>LocalAddr = laddr, Timeout = 3 * Second,
                     Control = Some (windows_calls [(soExclusiveAddrUse, 0),
                                                    (windows_SO_REUSEADDR, 1)])\<rparr>)"

text \<open>The \<^verbatim>\<open>net.ListenConfig\<close> of \<^verbatim>\<open>listenWithReuse\<close> of package forward.\<close>

definition listenWithReuse_config :: "platform \<Rightarrow> ListenConfig" where
  "listenWithReuse_config p =
     (case p of
        Unix \<Rightarrow> \<lparr>ListenControl = Some [(SO_REUSEADDR, 1), (SO_REUSEPORT, 1)]\<rparr>
      | Windows \<Rightarrow> \<lparr>ListenControl = Some (windows_calls [(soExclusiveAddrUse, 0),
                                                          (windows_SO_REUSEADDR, 1)])\<rparr>)"

text \<open>The library calls that make a socket.\<close>

definition DialContext :: "Dialer \<Rightarrow> string \<Rightarrow> socket" where
  "DialContext d network = Socket network (Control d)"

definition Listen :: "ListenConfig \<Rightarrow> string \<Rightarrow> socket" where
  "Listen lc network = Socket network (ListenControl lc)"

definition DialUDP :: "string \<Rightarrow> socket" where
  "DialUDP network = Socket network None"

definition ListenPacket :: "string \<Rightarrow> socket" where
  "ListenPacket network = Socket network None"

text \<open>
  The five places that make a socket on a monitored port: \<^verbatim>\<open>GetTCPMapping\<close>,
  \<^verbatim>\<open>GetUDPMapping\<close>, \<^verbatim>\<open>TCPForwarder.Start\<close>, \<^verbatim>\<open>TCPKeepAlive\<close> (which fills in a
  \<^verbatim>\<open>net.Dialer\<close> of its own and does not call \<^verbatim>\<open>newDialerWithReuse\<close>), and
  \<^verbatim>\<open>Run\<close> for the packet socket of \<^verbatim>\<open>UDPKeepAlive\<close>.
\<close>

definition stun_tcp_socket :: "platform \<Rightarrow> Client \<Rightarrow> int \<Rightarrow> socket" where
  "stun_tcp_socket p c srcPort =
     DialContext (newBoundDialer p \<lparr>IP = bindIP c, Port = srcPort\<rparr> (timeout c)) ''tcp4''"

definition stun_udp_socket :: "platform \<Rightarrow> Client \<Rightarrow> int \<Rightarrow> socket" where
  "stun_udp_socket p c srcPort = DialUDP ''udp4''"

definition forwarder_socket :: "platform \<Rightarrow> TCPForwarder \<Rightarrow> socket" where
  "forwarder_socket p f = Listen (listenWithReuse_config p) ''tcp4''"

definition keepalive_tcp_socket :: "platform \<Rightarrow> Addr \<Rightarrow> socket" where
  "keepalive_tcp_socket p laddr =
     DialContext \<lparr>LocalAddr = laddr, Timeout = 3 * Second, Control = None\<rparr> ''tcp''"

definition keepalive_udp_socket :: "platform \<Rightarrow> Addr \<Rightarrow> socket" where
  "keepalive_udp_socket p addr = ListenPacket ''udp''"

text \<open>
  The value an option has when the socket is bound: every option starts off (0), and a
  later call overrides an earlier one.
\<close>

definition option_value :: "control \<Rightarrow> sockopt \<Rightarrow> int" where
  "option_value calls opt = foldl (\<lambda>v (k, x). if k = opt then x else v) 0 calls"

definition calls_of :: "control option \<Rightarrow> control" where
  "calls_of ctl = (case ctl of None \<Rightarrow> [] | Some calls \<Rightarrow> calls)"

text \<open>
  Address reuse as the specification asks for it: both \<^verbatim>\<open>SO_REUSEADDR\<close> and
  \<^verbatim>\<open>SO_REUSEPORT\<close> on for Unix; exclusive use off and \<^verbatim>\<open>SO_REUSEADDR\<close> on for
  Windows.
\<close>

fun reuse_enabled :: "platform \<Rightarrow> socket \<Rightarrow> bool" where
  "reuse_enabled Unix (Socket network ctl) =
     (option_value (calls_of ctl) SO_REUSEADDR \<noteq> 0 \<and> option_value (calls_of ctl) SO_REUSEPORT \<noteq> 0)"
| "reuse_enabled Windows (Socket network ctl) =
     (option_value (calls_of ctl) SO_EXCLUSIVEADDRUSE = 0
      \<and> option_value (calls_of ctl) SO_REUSEADDR \<noteq> 0)"

section \<open>Verified properties\<close>

subsection \<open>The status manager\<close>

lemma sort_keys_tcp_udp: "sort_keys [(''tcp'', a), (''udp'', b)] = [(''tcp'', a), (''udp'', b)]"
  by (simp add: sort_keys_def)

lemma encode_rec: "is_record (encode_strmap [(''inner'', a), (''outer'', b)])"
  by (simp add: encode_strmap_def sort_keys_def)

lemma recs_ok_append_rec:
  assumes "recs_ok tmp" "protocol \<in> {''tcp'', ''udp''}"
  shows "recs_ok (append_rec protocol tmp entry)"
proof -
  from assms obtain a b where tmp: "tmp = [(''tcp'', a), (''udp'', b)]"
    by (cases tmp; cases "tl tmp") (auto simp: recs_ok_def)
  with assms show ?thesis
    by (auto simp: recs_ok_def append_rec_def encode_rec)
qed

lemma recs_ok_entries:
  "recs_ok tmp \<Longrightarrow> protocol \<in> {''tcp'', ''udp''} \<Longrightarrow> recs_ok (foldl (append_rec protocol) tmp es)"
  by (induction es arbitrary: tmp) (simp_all add: recs_ok_append_rec del: insert_iff)

lemma recs_ok_protocols:
  "recs_ok tmp \<Longrightarrow> fst ` set ps \<subseteq> {''tcp'', ''udp''} \<Longrightarrow>
   recs_ok (foldl (\<lambda>tmp (protocol, amap). foldl (append_rec protocol) tmp (f amap)) tmp ps)"
proof (induction ps arbitrary: tmp)
  case Nil
  then show ?case by simp
next
  case (Cons p ps)
  obtain protocol amap where p: "p = (protocol, amap)" by (cases p)
  with Cons.prems have "protocol \<in> {''tcp'', ''udp''}" by auto
  with Cons.prems have "recs_ok (foldl (append_rec protocol) tmp (f amap))"
    by (intro recs_ok_entries)
  with Cons show ?case by (simp add: p)
qed

lemma recs_ok_collect:
  assumes "go_range e" "map fst m = [''tcp'', ''udp'']"
  shows "recs_ok (collect e m)"
proof -
  from assms(1) have "set (protoOrder e m) = set m"
    by (metis go_range_def set_mset_mset)
  with assms(2) have "fst ` set (protoOrder e m) \<subseteq> {''tcp'', ''udp''}"
    by (metis list.set_map list.simps(15) empty_set subset_refl)
  moreover have "recs_ok [(''tcp'', []), (''udp'', [])]" by (simp add: recs_ok_def)
  ultimately show ?thesis unfolding collect_def by (rule recs_ok_protocols[rotated])
qed

lemma recs_ok_doc:
  assumes "recs_ok tmp"
  shows "is_status_doc (encode_tmp tmp)"
proof -
  from assms obtain a b where tmp: "tmp = [(''tcp'', a), (''udp'', b)]"
    by (cases tmp; cases "tl tmp") (auto simp: recs_ok_def)
  with assms show ?thesis
    by (auto simp: recs_ok_def encode_tmp_def sort_keys_def list_all_iff)
qed

lemma writeFile_mappings: "mappings (snd (writeFile e m)) = mappings m"
  by (simp add: writeFile_def Let_def split: io_outcome.splits)

lemma writeFile_hookCmd: "hookCmd (snd (writeFile e m)) = hookCmd m"
  by (simp add: writeFile_def Let_def split: io_outcome.splits)

lemma handleEvent_keys:
  "handleEvent e m ev = Inr m' \<Longrightarrow> map fst (mappings m') = map fst (mappings m)"
  by (auto simp: handleEvent_def Let_def writeFile_mappings update_keys
      split: if_splits option.splits dest: map_of_SomeD)
     (metis fst_conv image_eqI map_of_SomeD)+

lemma handleEvent_stored:
  assumes "handleEvent e m ev = Inr m'"
  shows "\<exists>pm. map_of (mappings m') (Protocol ev) = Some pm \<and> map_of pm (InnerAddr ev) = Some (OuterAddr ev)"
  using assms
  by (auto simp: handleEvent_def Let_def writeFile_mappings update_conv'
      split: if_splits option.splits)

lemma handleEvent_again:
  assumes "map_of (mappings m) (Protocol ev) = Some pm" "map_of pm (InnerAddr ev) = Some (OuterAddr ev)"
  shows "handleEvent e m ev = Inr m"
  using assms by (simp add: handleEvent_def)

lemma handleEvent_outcome:
  assumes "map fst (mappings m) = [''tcp'', ''udp'']"
  shows "(Protocol ev \<notin> {''tcp'', ''udp''} \<longrightarrow> handleEvent e m ev = Inl NilMapWrite)
       \<and> (Protocol ev \<in> {''tcp'', ''udp''} \<longrightarrow> (\<exists>m'. handleEvent e m ev = Inr m'))"
proof -
  from assms obtain a b where tmp: "mappings m = [(''tcp'', a), (''udp'', b)]"
    by (cases "mappings m"; cases "tl (mappings m)") auto
  then show ?thesis
    by (auto simp: handleEvent_def Let_def)
qed

lemma handleEvents_keys:
  "handleEvents m evs = Inr m' \<Longrightarrow> map fst (mappings m') = map fst (mappings m)"
  by (induction evs arbitrary: m) (auto split: sum.splits dest: handleEvent_keys)

lemma NewManager_keys:
  "NewManager opened path hook = Inr m0 \<Longrightarrow> map fst (mappings m0) = [''tcp'', ''udp'']"
  by (auto simp: NewManager_def split: if_splits)

lemma writeFile_docs_ok:
  assumes "go_range e" "docs_ok m"
  shows "docs_ok (snd (writeFile e m))"
proof -
  from assms have "is_status_doc (encode_tmp (collect e (mappings m)))"
    by (simp add: docs_ok_def recs_ok_collect recs_ok_doc)
  with assms(2) show ?thesis
    by (simp add: docs_ok_def writeFile_def Let_def split: io_outcome.splits)
qed

lemma handleEvent_docs_ok:
  assumes "go_range e" "docs_ok m" "handleEvent e m ev = Inr m'"
  shows "docs_ok m'"
proof (cases "m' = m")
  case True
  with assms show ?thesis by simp
next
  case False
  with assms(3) obtain pm where pm: "map_of (mappings m) (Protocol ev) = Some pm"
    and m': "m' = (let m2 = snd (writeFile e (m\<lparr>mappings := AList.update (Protocol ev)
                          (AList.update (InnerAddr ev) (OuterAddr ev) pm) (mappings m)\<rparr>))
              in if hookCmd m2 \<noteq> [] then m2\<lparr>spawned := spawned m2 @ [expandHook m2 ev]\<rparr> else m2)"
    by (auto simp: handleEvent_def Let_def split: if_splits option.splits)
  let ?m1 = "m\<lparr>mappings := AList.update (Protocol ev)
                          (AList.update (InnerAddr ev) (OuterAddr ev) pm) (mappings m)\<rparr>"
  from pm have "Protocol ev \<in> set (map fst (mappings m))"
    by (metis fst_conv image_eqI list.set_map map_of_SomeD)
  with assms(2) have "docs_ok ?m1"
    by (simp add: docs_ok_def update_keys)
  with assms(1) have "docs_ok (snd (writeFile e ?m1))" by (rule writeFile_docs_ok)
  then show ?thesis by (simp add: m' Let_def docs_ok_def)
qed

lemma go_range_env_ok: "go_range env_ok"
  by (simp add: go_range_def env_ok_def)

lemma go_range_env_torn: "go_range env_torn"
  by (simp add: go_range_def env_torn_def)

text \<open>
  C3. If the table already maps the event's inner address to its outer address under
  its protocol, \<^verbatim>\<open>handleEvent\<close> returns the manager as it was: same table, same file,
  nothing encoded, nothing spawned. Handling an event twice in a row therefore leaves
  the manager (or the panic) that handling it once leaves, whatever the surroundings
  of the two calls are.
\<close>

theorem handleEvent_idempotent:
  "(map_of (mappings m) (Protocol ev) = Some pm \<and> map_of pm (InnerAddr ev) = Some (OuterAddr ev)
      \<longrightarrow> handleEvent e m ev = Inr m)
   \<and> handleEvents m [(e, ev), (e', ev)] = handleEvents m [(e, ev)]"
proof (intro conjI impI)
  show "handleEvents m [(e, ev), (e', ev)] = handleEvents m [(e, ev)]"
  proof (cases "handleEvent e m ev")
    case (Inl p)
    then show ?thesis by simp
  next
    case (Inr m1)
    from handleEvent_stored [OF Inr] have "handleEvent e' m1 ev = Inr m1"
      by (auto intro: handleEvent_again)
    with Inr show ?thesis by simp
  qed
qed (auto intro: handleEvent_again)

theorem handleEvent_idempotent_witness:
  "map_of (mappings (manager0\<lparr>mappings := [(''tcp'', [(InnerAddr ev_tcp, OuterAddr ev_tcp)]), (''udp'', [])]\<rparr>))
       (Protocol ev_tcp) = Some [(InnerAddr ev_tcp, OuterAddr ev_tcp)]
   \<and> map_of [(InnerAddr ev_tcp, OuterAddr ev_tcp)] (InnerAddr ev_tcp) = Some (OuterAddr ev_tcp)
   \<and> handleEvent env_ok (manager0\<lparr>mappings := [(''tcp'', [(InnerAddr ev_tcp, OuterAddr ev_tcp)]), (''udp'', [])]\<rparr>) ev_tcp
       = Inr (manager0\<lparr>mappings := [(''tcp'', [(InnerAddr ev_tcp, OuterAddr ev_tcp)]), (''udp'', [])]\<rparr>)"
  using handleEvent_idempotent
    [of "manager0\<lparr>mappings := [(''tcp'', [(InnerAddr ev_tcp, OuterAddr ev_tcp)]), (''udp'', [])]\<rparr>"
        ev_tcp "[(InnerAddr ev_tcp, OuterAddr ev_tcp)]" env_ok env_torn]
  by (simp add: ev_tcp_def)

text \<open>
  C7. From a freshly made manager, while every event handled carries the protocol
  \<open>tcp\<close> or \<open>udp\<close>, no call panics, and every document the manager hands to the
  encoder, hence every document that reaches the file in full, is an object with
  exactly the keys \<open>tcp\<close> and \<open>udp\<close>, each an array of objects with exactly the string
  fields \<open>inner\<close> and \<open>outer\<close>.
\<close>

theorem status_file_documents:
  assumes "NewManager opened path hook = Inr m0"
    and "\<forall>x \<in> set evs. go_range (fst x) \<and> Protocol (snd x) \<in> {''tcp'', ''udp''}"
  shows "\<exists>m. handleEvents m0 evs = Inr m \<and> list_all is_status_doc (encoded m)
            \<and> (\<forall>d. file' m = Document d \<longrightarrow> is_status_doc d)"
proof -
  have run: "docs_ok m \<Longrightarrow> \<forall>x \<in> set evs. go_range (fst x) \<and> Protocol (snd x) \<in> {''tcp'', ''udp''}
      \<Longrightarrow> \<exists>m'. handleEvents m evs = Inr m' \<and> docs_ok m'" for m
  proof (induction evs arbitrary: m)
    case Nil
    then show ?case by simp
  next
    case (Cons x xs)
    from Cons.prems obtain m1 where m1: "handleEvent (fst x) m (snd x) = Inr m1"
      using handleEvent_outcome [of m "snd x" "fst x"] by (auto simp: docs_ok_def)
    with Cons.prems have "docs_ok m1" by (auto intro: handleEvent_docs_ok)
    with Cons have "\<exists>m'. handleEvents m1 xs = Inr m' \<and> docs_ok m'" by simp
    with m1 show ?case by simp
  qed
  from assms(1) have "docs_ok m0"
    by (auto simp: NewManager_def docs_ok_def split: if_splits)
  from run [OF this assms(2)] show ?thesis by (auto simp: docs_ok_def)
qed

theorem status_file_documents_witness:
  "NewManager True ''status.json'' ''echo {protocol} {inner} {outer}'' = Inr manager0
   \<and> go_range env_ok \<and> Protocol ev_tcp \<in> {''tcp'', ''udp''}
   \<and> go_range env_torn \<and> Protocol ev_udp \<in> {''tcp'', ''udp''}
   \<and> (\<exists>m. handleEvents manager0 [(env_ok, ev_tcp), (env_torn, ev_udp)] = Inr m
         \<and> list_all is_status_doc (encoded m)
         \<and> (\<forall>d. file' m = Document d \<longrightarrow> is_status_doc d))"
proof -
  have a: "NewManager True ''status.json'' ''echo {protocol} {inner} {outer}'' = Inr manager0"
    by (simp add: NewManager_def manager0_def)
  have b: "go_range env_ok \<and> Protocol ev_tcp \<in> {''tcp'', ''udp''}
      \<and> go_range env_torn \<and> Protocol ev_udp \<in> {''tcp'', ''udp''}"
    by (simp add: go_range_env_ok go_range_env_torn ev_tcp_def ev_udp_def)
  then have "\<forall>x \<in> set [(env_ok, ev_tcp), (env_torn, ev_udp)].
         go_range (fst x) \<and> Protocol (snd x) \<in> {''tcp'', ''udp''}"
    by simp
  from status_file_documents [OF a this] a b show ?thesis by blast
qed

text \<open>
  C9. In every state the manager reaches from \<^verbatim>\<open>NewManager\<close>, an event whose protocol
  is neither \<open>tcp\<close> nor \<open>udp\<close> makes \<^verbatim>\<open>handleEvent\<close> panic on the write to a nil map,
  and an event whose protocol is one of the two is handled without a panic.
\<close>

theorem handleEvent_panics_iff:
  assumes "NewManager opened path hook = Inr m0" "handleEvents m0 evs = Inr m"
  shows "(Protocol ev \<notin> {''tcp'', ''udp''} \<longrightarrow> handleEvent e m ev = Inl NilMapWrite)
       \<and> (Protocol ev \<in> {''tcp'', ''udp''} \<longrightarrow> (\<exists>m'. handleEvent e m ev = Inr m'))"
  using handleEvent_outcome handleEvents_keys [OF assms(2)] NewManager_keys [OF assms(1)]
  by presburger

theorem handleEvent_panics_iff_witness:
  "NewManager True ''status.json'' ''echo {protocol} {inner} {outer}'' = Inr manager0
   \<and> (\<exists>m. handleEvents manager0 [(env_ok, ev_tcp)] = Inr m
          \<and> Protocol ev_sctp \<notin> {''tcp'', ''udp''} \<and> handleEvent env_torn m ev_sctp = Inl NilMapWrite
          \<and> Protocol ev_udp \<in> {''tcp'', ''udp''} \<and> (\<exists>m'. handleEvent env_torn m ev_udp = Inr m'))"
proof -
  have a: "NewManager True ''status.json'' ''echo {protocol} {inner} {outer}'' = Inr manager0"
    by (simp add: NewManager_def manager0_def)
  have "\<exists>m. handleEvent env_ok manager0 ev_tcp = Inr m"
    using handleEvent_outcome [of manager0 ev_tcp env_ok] by (simp add: manager0_def ev_tcp_def)
  then obtain m where m: "handleEvents manager0 [(env_ok, ev_tcp)] = Inr m"
    by auto
  have s: "Protocol ev_sctp \<notin> {''tcp'', ''udp''}" and u: "Protocol ev_udp \<in> {''tcp'', ''udp''}"
    by (simp_all add: ev_sctp_def ev_udp_def)
  from handleEvent_panics_iff [OF a m, of ev_sctp env_torn] s
  have 1: "handleEvent env_torn m ev_sctp = Inl NilMapWrite" by blast
  from handleEvent_panics_iff [OF a m, of ev_udp env_torn] u
  have 2: "\<exists>m'. handleEvent env_torn m ev_udp = Inr m'" by blast
  from a m s u 1 2 show ?thesis by blast
qed

subsection \<open>Addresses and numerals\<close>

lemma LastIndex_absent: "c \<notin> set s \<Longrightarrow> LastIndex s c = -1"
  by (induction s) (auto simp: Let_def)

lemma LastIndex_lower: "-1 \<le> LastIndex s c"
  by (induction s) (auto simp: Let_def)

lemma LastIndex_last: "c \<notin> set t \<Longrightarrow> LastIndex (h @ c # t) c = int (length h)"
  by (induction h) (auto simp: Let_def LastIndex_absent)

lemma LastIndex_upper: "LastIndex s c < int (length s)"
  by (induction s) (auto simp: Let_def)

lemma split_last:
  assumes "c \<in> set a"
  shows "\<exists>h t. a = h @ c # t \<and> c \<notin> set t"
  using assms by (metis split_list_last)

lemma splitAddr_colon:
  assumes "CHR '':'' \<notin> set t"
  shows "splitAddr (h @ CHR '':'' # t) = Inr (h, fst (Atoi t))"
proof -
  have "nat (int (length h) + 1) = Suc (length h)" by simp
  with LastIndex_last [OF assms, of h] show ?thesis
    by (simp add: splitAddr_def slice_to_def slice_from_def)
qed

lemma splitAddr_no_colon:
  assumes "CHR '':'' \<notin> set a"
  shows "splitAddr a = Inl SliceBoundsOutOfRange"
  using LastIndex_absent [OF assms]
  by (simp add: splitAddr_def slice_to_def)

lemma splitAddr_panics_iff: "(\<exists>p. splitAddr a = Inl p) \<longleftrightarrow> CHR '':'' \<notin> set a"
proof (cases "CHR '':'' \<in> set a")
  case True
  then obtain h t where "a = h @ CHR '':'' # t" "CHR '':'' \<notin> set t"
    using split_last by fastforce
  with True show ?thesis by (simp add: splitAddr_colon)
next
  case False
  then show ?thesis by (simp add: splitAddr_no_colon)
qed

lemma after_last_colon_append:
  "CHR '':'' \<notin> set t \<Longrightarrow> after_last_colon (h @ CHR '':'' # t) = t"
  by (simp add: after_last_colon_def takeWhile_append)

lemma portOf_total: "portOf addr = Inr (after_last_colon addr)"
proof (cases "CHR '':'' \<in> set addr")
  case True
  then obtain h t where a: "addr = h @ CHR '':'' # t" and t: "CHR '':'' \<notin> set t"
    using split_last by fastforce
  have "nat (int (length h) + 1) = Suc (length h)" by simp
  with LastIndex_last [OF t, of h] after_last_colon_append [OF t, of h] show ?thesis
    by (simp add: portOf_def slice_from_def a)
next
  case False
  then have "takeWhile (\<lambda>c. c \<noteq> CHR '':'') (rev addr) = rev addr"
    by (intro takeWhile_eq_all_conv [THEN iffD2]) auto
  then have "after_last_colon addr = addr"
    by (simp only: after_last_colon_def rev_rev_ident)
  with LastIndex_absent [OF False] show ?thesis
    by (simp add: portOf_def slice_from_def)
qed

lemma parse_opens_panics_iff:
  "(\<exists>p. parse_opens parseIP as = Inl p) \<longleftrightarrow> (\<exists>a \<in> set as. CHR '':'' \<notin> set a)"
proof (induction as)
  case Nil
  then show ?case by simp
next
  case (Cons a as)
  show ?case
  proof (cases "splitAddr a")
    case (Inl p)
    with splitAddr_panics_iff [of a] show ?thesis by auto
  next
    case (Inr hp)
    with splitAddr_panics_iff [of a] have "CHR '':'' \<in> set a" by auto
    with Inr Cons show ?thesis by (auto split: sum.splits prod.splits)
  qed
qed


lemma paired_fwds_zip:
  "i + length targets \<le> length opens \<Longrightarrow>
   paired_fwds opens i targets
     = Inr (map (\<lambda>(l, t). \<lparr>ListenAddr = l, TargetAddr = t\<rparr>) (zip (drop i opens) targets))"
proof (induction targets arbitrary: i)
  case Nil
  then show ?case by simp
next
  case (Cons t ts)
  then have i: "i < length opens" and "Suc i + length ts \<le> length opens" by simp_all
  with Cons.IH [of "Suc i"] show ?case
    by (simp add: Cons_nth_drop_Suc [symmetric])
qed

lemma target_fwds_map:
  "target_fwds targets
     = Inr (map (\<lambda>t. \<lparr>ListenAddr = ''0.0.0.0:'' @ after_last_colon t, TargetAddr = t\<rparr>) targets)"
  by (induction targets) (simp_all add: portOf_total)

lemma wrap64_id: "- (2 ^ 63) \<le> x \<Longrightarrow> x < 2 ^ 63 \<Longrightarrow> wrap64 x = x"
  by (simp add: wrap64_def)

lemma wrap64_min: "wrap64 (2 ^ 63) = - (2 ^ 63)"
  by (simp add: wrap64_def)








subsection \<open>The orchestrator\<close>

lemma fwds_no_panic:
  "\<exists>fwds. (if length opens = length targets then paired_fwds opens 0 targets else target_fwds targets)
      = Inr fwds"
  by (simp add: paired_fwds_zip target_fwds_map)

lemma New_panics_iff:
  "(\<exists>p. New parseIP True c = Inl p) \<longleftrightarrow> (\<exists>a \<in> set (OpenPort_TCP c @ OpenPort_UDP c). CHR '':'' \<notin> set a)"
proof -
  obtain fwds where f: "(if length (OpenPort_TCP c) = length (ForwardPort_TCP c)
       then paired_fwds (OpenPort_TCP c) 0 (ForwardPort_TCP c) else target_fwds (ForwardPort_TCP c)) = Inr fwds"
    using fwds_no_panic by blast
  have "(\<exists>p. New parseIP True c = Inl p) \<longleftrightarrow>
      (\<exists>p. parse_opens parseIP (OpenPort_TCP c) = Inl p) \<or> (\<exists>p. parse_opens parseIP (OpenPort_UDP c) = Inl p)"
    unfolding New_def f by (auto simp: NewManager_def split: sum.splits)
  then show ?thesis by (auto simp: parse_opens_panics_iff)
qed



lemma New_tcpFwds:
  assumes "New parseIP opened c = Inr (Inr n)"
  shows "tcpFwds n = (if length (OpenPort_TCP c) = length (ForwardPort_TCP c)
      then map (\<lambda>(l, t). \<lparr>ListenAddr = l, TargetAddr = t\<rparr>) (zip (OpenPort_TCP c) (ForwardPort_TCP c))
      else map (\<lambda>t. \<lparr>ListenAddr = ''0.0.0.0:'' @ after_last_colon t, TargetAddr = t\<rparr>) (ForwardPort_TCP c))"
  using assms
  by (auto simp: New_def paired_fwds_zip target_fwds_map split: sum.splits if_splits)

text \<open>
  C6. When \<^verbatim>\<open>New\<close> returns an orchestrator: if the lists of open TCP ports and of TCP
  forward targets have the same length, it has one forwarder per index \<open>i\<close>, listening
  on the \<open>i\<close>-th open port with the \<open>i\<close>-th target; otherwise it has one forwarder per
  target, listening on \<open>0.0.0.0:\<close> followed by the text after the last \<open>:\<close> of the target.
\<close>

theorem New_forwarders:
  assumes "New parseIP opened c = Inr (Inr n)"
  shows "(length (OpenPort_TCP c) = length (ForwardPort_TCP c) \<longrightarrow>
            length (tcpFwds n) = length (ForwardPort_TCP c)
            \<and> (\<forall>i < length (ForwardPort_TCP c).
                  tcpFwds n ! i = \<lparr>ListenAddr = OpenPort_TCP c ! i, TargetAddr = ForwardPort_TCP c ! i\<rparr>))
       \<and> (length (OpenPort_TCP c) \<noteq> length (ForwardPort_TCP c) \<longrightarrow>
            tcpFwds n = map (\<lambda>t. \<lparr>ListenAddr = ''0.0.0.0:'' @ after_last_colon t, TargetAddr = t\<rparr>)
                          (ForwardPort_TCP c))"
  using New_tcpFwds [OF assms] by simp

theorem New_forwarders_witness:
  "(\<exists>n. New parseIP0 True config0 = Inr (Inr n)
        \<and> length (OpenPort_TCP config0) = length (ForwardPort_TCP config0)
        \<and> tcpFwds n = [\<lparr>ListenAddr = ''0.0.0.0:34567'', TargetAddr = ''192.168.1.1:80''\<rparr>])
   \<and> (\<exists>n. New parseIP0 True (config0\<lparr>ForwardPort_TCP := [''192.168.1.1:80'', ''192.168.1.2:8080'']\<rparr>) = Inr (Inr n)
        \<and> length (OpenPort_TCP (config0\<lparr>ForwardPort_TCP := [''192.168.1.1:80'', ''192.168.1.2:8080'']\<rparr>))
            \<noteq> length (ForwardPort_TCP (config0\<lparr>ForwardPort_TCP := [''192.168.1.1:80'', ''192.168.1.2:8080'']\<rparr>))
        \<and> tcpFwds n = [\<lparr>ListenAddr = ''0.0.0.0:80'', TargetAddr = ''192.168.1.1:80''\<rparr>,
                        \<lparr>ListenAddr = ''0.0.0.0:8080'', TargetAddr = ''192.168.1.2:8080''\<rparr>])"
proof -
  let ?c2 = "config0\<lparr>ForwardPort_TCP := [''192.168.1.1:80'', ''192.168.1.2:8080'']\<rparr>"
  have "\<not> (\<exists>p. New parseIP0 True config0 = Inl p)"
    unfolding New_panics_iff by (simp add: config0_def)
  then obtain n1 where n1: "New parseIP0 True config0 = Inr (Inr n1)"
    by (cases "New parseIP0 True config0") (auto simp: New_def NewManager_def split: sum.splits)
  have "\<not> (\<exists>p. New parseIP0 True ?c2 = Inl p)"
    unfolding New_panics_iff by (simp add: config0_def)
  then obtain n2 where n2: "New parseIP0 True ?c2 = Inr (Inr n2)"
    by (cases "New parseIP0 True ?c2") (auto simp: New_def NewManager_def split: sum.splits)
  have l1: "length (OpenPort_TCP config0) = length (ForwardPort_TCP config0)"
    and l2: "length (OpenPort_TCP ?c2) \<noteq> length (ForwardPort_TCP ?c2)"
    by (simp_all add: config0_def)
  from New_forwarders [OF n1] l1
  have "tcpFwds n1 = [\<lparr>ListenAddr = ''0.0.0.0:34567'', TargetAddr = ''192.168.1.1:80''\<rparr>]"
    by (simp add: config0_def list_eq_iff_nth_eq)
  moreover from New_forwarders [OF n2] l2
  have "tcpFwds n2 = [\<lparr>ListenAddr = ''0.0.0.0:80'', TargetAddr = ''192.168.1.1:80''\<rparr>,
                        \<lparr>ListenAddr = ''0.0.0.0:8080'', TargetAddr = ''192.168.1.2:8080''\<rparr>]"
    by (simp add: config0_def after_last_colon_def)
  ultimately show ?thesis using n1 n2 l1 l2 by blast
qed




subsection \<open>The worker\<close>

lemma worker_loop_outers:
  "worker_loop lib c proto addr inner lastOuter nets = Inr evs \<Longrightarrow>
   map OuterAddr evs = tl (remdups_adj (lastOuter # observed lib c proto addr nets))"
proof (induction nets arbitrary: lastOuter evs)
  case Nil
  then show ?case by simp
next
  case (Cons net nets)
  show ?case
  proof (cases "probe c proto addr net")
    case (Inl p)
    with Cons.prems show ?thesis by simp
  next
    case (Inr r)
    show ?thesis
    proof (cases r)
      case (Inl err)
      with Inr Cons show ?thesis by simp
    next
      case res: (Inr res)
      show ?thesis
      proof (cases "outer_of lib res = lastOuter")
        case True
        with Inr res Cons show ?thesis by simp
      next
        case False
        with Inr res Cons.prems obtain evs' where
          evs': "worker_loop lib c proto addr inner (outer_of lib res) nets = Inr evs'"
          and evs: "evs = \<lparr>Protocol = proto, InnerAddr = inner, OuterAddr = outer_of lib res\<rparr> # evs'"
          by (auto simp: Let_def split: sum.splits)
        from Cons.IH [OF evs'] False Inr res evs show ?thesis by simp
      qed
    qed
  qed
qed

lemma worker_loop_inner:
  "worker_loop lib c proto addr inner lastOuter nets = Inr evs \<Longrightarrow>
   \<forall>ev \<in> set evs. InnerAddr ev = inner \<and> Protocol ev = proto"
proof (induction nets arbitrary: lastOuter evs)
  case Nil
  then show ?case by simp
next
  case (Cons net nets)
  then show ?case
    by (auto simp: Let_def split: sum.splits if_splits)
qed

lemma outer_of_nonempty: "outer_of lib res \<noteq> []" "[] \<noteq> outer_of lib res"
  by (simp_all add: outer_of_def)

lemma observed_nonempty: "[] \<notin> set (observed lib c proto addr nets)"
  by (induction nets) (auto simp: outer_of_nonempty split: sum.splits)

lemma remdups_adj_fresh_head: "xs = [] \<or> hd xs \<noteq> x \<Longrightarrow> tl (remdups_adj (x # xs)) = remdups_adj xs"
  by (cases xs) auto

text \<open>
  C2. The outer addresses of the events a worker sends are the outer addresses of its
  successful probes with every run of equal neighbours cut down to its first element.
  So each event differs in its outer address from the event the worker sent before it,
  a probe that yields the address of the last event sends nothing, and the first
  successful probe always sends (its address contains \<open>:\<close> and is not empty). All
  events of a worker carry the same inner address and the worker's protocol.
\<close>

theorem runWorker_events:
  assumes "runWorker lib outboundIP n proto addr nets = Inr evs"
  shows "map OuterAddr evs = remdups_adj (observed lib (stunClient n) proto addr nets)
       \<and> (\<forall>i. Suc i < length evs \<longrightarrow> OuterAddr (evs ! Suc i) \<noteq> OuterAddr (evs ! i))
       \<and> (\<forall>i j. i < length evs \<and> j < length evs \<longrightarrow>
            InnerAddr (evs ! i) = InnerAddr (evs ! j) \<and> Protocol (evs ! i) = proto)"
proof -
  from assms obtain inner where
    loop: "worker_loop lib (stunClient n) proto addr inner [] nets = Inr evs"
    by (auto simp: runWorker_def split: sum.splits)
  let ?obs = "observed lib (stunClient n) proto addr nets"
  have "?obs = [] \<or> hd ?obs \<noteq> []"
    using observed_nonempty [of lib "stunClient n" proto addr nets] by (cases ?obs) auto
  with worker_loop_outers [OF loop] have eq: "map OuterAddr evs = remdups_adj ?obs"
    by (simp only: remdups_adj_fresh_head)
  then have "distinct_adj (map OuterAddr evs)" by simp
  then have adj: "\<forall>i. Suc i < length evs \<longrightarrow> OuterAddr (evs ! Suc i) \<noteq> OuterAddr (evs ! i)"
    by (auto simp: distinct_adj_conv_nth)
  from worker_loop_inner [OF loop] have "\<forall>i j. i < length evs \<and> j < length evs \<longrightarrow>
            InnerAddr (evs ! i) = InnerAddr (evs ! j) \<and> Protocol (evs ! i) = proto"
    by simp
  with eq adj show ?thesis by blast
qed

theorem runWorker_events_witness:
  "runWorker lib0 [192, 168, 1, 10] natter0 ''tcp'' (TCPAddr \<lparr>IP = [0, 0, 0, 0], Port = 34567\<rparr>)
      [\<lambda>i. DialFails, \<lambda>i. answers 51900, \<lambda>i. answers 51900,
       \<lambda>i. if i = 0 then times_out else answers 51901]
     = Inr [\<lparr>Protocol = ''tcp'', InnerAddr = ''192.168.1.10:34567'', OuterAddr = ''203.0.113.4:51900''\<rparr>,
            \<lparr>Protocol = ''tcp'', InnerAddr = ''192.168.1.10:34567'', OuterAddr = ''203.0.113.4:51901''\<rparr>]
   \<and> remdups_adj (observed lib0 (stunClient natter0) ''tcp'' (TCPAddr \<lparr>IP = [0, 0, 0, 0], Port = 34567\<rparr>)
      [\<lambda>i. DialFails, \<lambda>i. answers 51900, \<lambda>i. answers 51900,
       \<lambda>i. if i = 0 then times_out else answers 51901])
     = [''203.0.113.4:51900'', ''203.0.113.4:51901'']"
proof -
  have run: "runWorker lib0 [192, 168, 1, 10] natter0 ''tcp'' (TCPAddr \<lparr>IP = [0, 0, 0, 0], Port = 34567\<rparr>)
      [\<lambda>i. DialFails, \<lambda>i. answers 51900, \<lambda>i. answers 51900,
       \<lambda>i. if i = 0 then times_out else answers 51901]
     = Inr [\<lparr>Protocol = ''tcp'', InnerAddr = ''192.168.1.10:34567'', OuterAddr = ''203.0.113.4:51900''\<rparr>,
            \<lparr>Protocol = ''tcp'', InnerAddr = ''192.168.1.10:34567'', OuterAddr = ''203.0.113.4:51901''\<rparr>]"
    by (simp add: runWorker_def formatInner_def lib0_def natter0_def client0_def probe_def
        GetTCPMapping_def answers_def times_out_def callback_addr_def callback_err_def
        outer_of_def Itoa_def)
  from runWorker_events [OF run] run show ?thesis by simp
qed

subsection \<open>The STUN client\<close>

text \<open>
  \<^verbatim>\<open>GetTCPMapping\<close> does what the specification says: the servers are tried in order
  up to the first one whose transaction succeeds, whose address is returned; when none
  succeeds (also for the empty list) all were tried and the call fails.
\<close>

lemma first_where_ge: "first_where P net i k = Some j \<Longrightarrow> i \<le> j"
  by (induction k arbitrary: i) (auto split: if_splits dest: Suc_leD)

lemma GetTCPMapping_from_first_success:
  "GetTCPMapping_from c p net i servers =
     (case first_where succeeds net i (length servers) of
        None \<Rightarrow> (Inl AllTCPServersFailed, map (\<lambda>s. s @ '':3478'') servers)
      | Some j \<Rightarrow>
          (Inr \<lparr>InternalIP = bindIP c, InternalPort = p,
                 ExternalIP = xorIP (answer (net j)), ExternalPort = xorPort (answer (net j))\<rparr>,
           map (\<lambda>s. s @ '':3478'') (take (Suc j - i) servers)))"
proof (induction servers arbitrary: i)
  case Nil
  then show ?case by simp
next
  case (Cons server servers)
  show ?case
  proof (cases "succeeds (net i)")
    case True
    then obtain x where "net i = Completes (EventMessage None x)"
      by (elim succeeds.elims) simp_all
    then show ?thesis by (simp add: callback_err_def callback_addr_def)
  next
    case False
    from False have "fst (GetTCPMapping_from c p net i (server # servers))
        = fst (GetTCPMapping_from c p net (Suc i) servers)
      \<and> snd (GetTCPMapping_from c p net i (server # servers))
        = (server @ '':3478'') # snd (GetTCPMapping_from c p net (Suc i) servers)"
      by (cases "net i" rule: succeeds.cases)
         (auto simp: Let_def callback_err_def split: prod.splits)
    with False Cons.IH [of "Suc i"] show ?thesis
      by (auto simp: prod_eq_iff Suc_diff_le split: option.splits dest!: first_where_ge)
  qed
qed

text \<open>
  \<^verbatim>\<open>GetUDPMapping\<close> stops at the first server whose attempt completes, with or
  without an error in the event.
\<close>

lemma GetUDPMapping_from_first_completed:
  "GetUDPMapping_from c p net i servers =
     (case first_where completes net i (length servers) of
        None \<Rightarrow> (Inl AllUDPServersFailed, map (\<lambda>s. s @ '':3478'') servers)
      | Some j \<Rightarrow>
          (Inr \<lparr>InternalIP = bindIP c, InternalPort = p,
                 ExternalIP = xorIP (answer (net j)), ExternalPort = xorPort (answer (net j))\<rparr>,
           map (\<lambda>s. s @ '':3478'') (take (Suc j - i) servers)))"
proof (induction servers arbitrary: i)
  case Nil
  then show ?case by simp
next
  case (Cons server servers)
  show ?case
  proof (cases "completes (net i)")
    case True
    then obtain ev where "net i = Completes ev"
      by (elim completes.elims) simp_all
    then show ?thesis by (simp add: Let_def)
  next
    case False
    from False have "fst (GetUDPMapping_from c p net i (server # servers))
        = fst (GetUDPMapping_from c p net (Suc i) servers)
      \<and> snd (GetUDPMapping_from c p net i (server # servers))
        = (server @ '':3478'') # snd (GetUDPMapping_from c p net (Suc i) servers)"
      by (cases "net i" rule: completes.cases)
         (auto simp: Let_def split: prod.splits)
    with False Cons.IH [of "Suc i"] show ?thesis
      by (auto simp: prod_eq_iff Suc_diff_le split: option.splits dest!: first_where_ge)
  qed
qed

text \<open>
  C5 fails on \<^verbatim>\<open>GetUDPMapping\<close>. A transaction that times out at the first server
  reaches the callback as an error event; the callback stores it in \<^verbatim>\<open>err\<close>, and
  the result of \<^verbatim>\<open>client.Do\<close>, nil, then overwrites it. The call returns a mapping
  with the zero external address and no error, and the second server is never tried,
  where \<^verbatim>\<open>GetTCPMapping\<close>, which keeps the error of the callback in a variable of
  its own, tries both servers and fails.
\<close>

theorem GetUDPMapping_loses_transaction_error:
  "\<not> succeeds times_out
   \<and> GetUDPMapping client0 5000 (\<lambda>i. times_out)
       = (Inr \<lparr>InternalIP = [192, 168, 1, 10], InternalPort = 5000, ExternalIP = [], ExternalPort = 0\<rparr>,
          [''stun.l.google.com:3478''])
   \<and> GetTCPMapping client0 5000 (\<lambda>i. times_out)
       = (Inl AllTCPServersFailed, [''stun.l.google.com:3478'', ''stun1.l.google.com:3478''])"
  by (simp add: GetUDPMapping_def GetTCPMapping_def client0_def times_out_def
      callback_addr_def callback_err_def)

subsection \<open>The TCP keep-alive loop\<close>

lemma bit_length_le: "a < 2 ^ n \<Longrightarrow> bit_length a \<le> n"
proof (induction n arbitrary: a)
  case 0
  then show ?case by (simp add: bit_length.simps)
next
  case (Suc n)
  then have "a div 2 < 2 ^ n" by simp
  with Suc.IH have "bit_length (a div 2) \<le> n" by blast
  then show ?case by (subst bit_length.simps) simp
qed

lemma bit_length_lower: "0 < a \<Longrightarrow> 2 ^ (bit_length a - 1) \<le> a"
proof (induction a rule: bit_length.induct)
  case (1 n)
  show ?case
  proof (cases "n div 2 = 0")
    case True
    with 1 show ?thesis by (simp add: bit_length.simps [of n] bit_length.simps [of 0])
  next
    case False
    with 1 have "2 ^ (bit_length (n div 2) - 1) \<le> n div 2" by simp
    moreover from False have "0 < bit_length (n div 2)" by (subst bit_length.simps) simp
    ultimately have "2 ^ bit_length (n div 2) \<le> 2 * (n div 2)"
      by (cases "bit_length (n div 2)") simp_all
    also have "\<dots> \<le> n" by simp
    finally show ?thesis using 1 by (simp add: bit_length.simps [of n])
  qed
qed

lemma round_even_lower: "(a div 2 ^ k) * 2 ^ k \<le> round_even k a"
  by (simp add: round_even_def Let_def)

lemma round_even_ge_gen:
  assumes "m < bit_length a" "0 < m"
  shows "2 ^ m \<le> round_even (bit_length a - m) a"
proof -
  define k where "k = bit_length a - m"
  from assms have a: "0 < a" by (cases "a = 0") (simp_all add: bit_length.simps)
  from assms have k: "0 < k" and n: "bit_length a - 1 = (m - 1) + k" by (simp_all add: k_def)
  from bit_length_lower [OF a] n have "2 ^ (m - 1) * 2 ^ k \<le> a" by (simp add: power_add)
  then have "2 ^ (m - 1) \<le> a div 2 ^ k"
    by (simp add: less_eq_div_iff_mult_less_eq)
  then have "2 ^ (m - 1) * 2 ^ k \<le> (a div 2 ^ k) * 2 ^ k" by (rule mult_right_mono) simp
  also have "\<dots> \<le> round_even k a" by (rule round_even_lower)
  finally have 1: "2 ^ (m - 1) * 2 ^ k \<le> round_even k a" .
  from k have "(2::nat) ^ 1 \<le> 2 ^ k" by (intro power_increasing) simp_all
  then have k2: "(2::nat) \<le> 2 ^ k" by simp
  from assms have "(2::nat) ^ m = 2 ^ (m - 1) * 2" by (cases m) simp_all
  also from k2 have "\<dots> \<le> 2 ^ (m - 1) * 2 ^ k" by (rule mult_left_mono) simp
  also note 1
  finally show ?thesis unfolding k_def .
qed

lemma round_even_ge:
  assumes "53 < bit_length a"
  shows "2 ^ 53 \<le> round_even (bit_length a - 53) a"
  using assms by (intro round_even_ge_gen) simp_all

lemma float64_small: "\<bar>x\<bar> < 2 ^ 53 \<Longrightarrow> float64 x = x"
proof -
  assume "\<bar>x\<bar> < 2 ^ 53"
  then have "nat \<bar>x\<bar> < 2 ^ 53" by simp
  then have "bit_length (nat \<bar>x\<bar>) \<le> 53" by (rule bit_length_le)
  then show ?thesis by (simp add: float64_def Let_def)
qed

lemma float64_large: "0 \<le> x \<Longrightarrow> 2 ^ 53 \<le> x \<Longrightarrow> 2 ^ 53 \<le> float64 x"
proof -
  assume x: "0 \<le> x" "2 ^ 53 \<le> x"
  show ?thesis
  proof (cases "bit_length (nat \<bar>x\<bar>) \<le> 53")
    case True
    with x show ?thesis by (simp add: float64_def Let_def)
  next
    case False
    then have "2 ^ 53 \<le> round_even (bit_length (nat \<bar>x\<bar>) - 53) (nat \<bar>x\<bar>)"
      by (intro round_even_ge) simp
    then have "(2::int) ^ 53 \<le> int (round_even (bit_length (nat \<bar>x\<bar>) - 53) (nat \<bar>x\<bar>))"
      by (metis of_nat_le_iff of_nat_numeral of_nat_power)
    moreover from x have "sgn x = 1" by simp
    ultimately show ?thesis using False by (simp add: float64_def Let_def)
  qed
qed

lemma next_backoff_min:
  assumes "0 < b" "b < 2 ^ 62"
  shows "next_backoff b = min (2 * b) (60 * Second)"
proof -
  from assms have w: "wrap64 (b * 2) = 2 * b" by (simp add: wrap64_id)
  have s: "float64 (wrap64 (60 * Second)) = 60 * Second"
    by (simp add: wrap64_def Second_def float64_small)
  show ?thesis
  proof (cases "2 * b < 2 ^ 53")
    case True
    with assms have "float64 (2 * b) = 2 * b" by (simp add: float64_small)
    with w s assms show ?thesis
      by (simp add: next_backoff_def int64_of_float64_def Second_def min_def)
  next
    case False
    with assms float64_large [of "2 * b"] have "2 ^ 53 \<le> float64 (2 * b)" by simp
    with False w s show ?thesis
      by (simp add: next_backoff_def int64_of_float64_def Second_def min_def)
  qed
qed

lemma ka_loop_append:
  "ka_loop iv s (rs @ [r]) =
     (fst (ka_step iv (fst (ka_loop iv s rs)) r),
      snd (ka_loop iv s rs) @ snd (ka_step iv (fst (ka_loop iv s rs)) r))"
  by (induction rs arbitrary: s) (simp_all add: Let_def case_prod_beta)

lemma ka_inv_bound: "ka_inv iv s \<Longrightarrow> iv < 2 ^ 62 \<Longrightarrow> backoff s < 2 ^ 62"
  by (auto simp: ka_inv_def Second_def max_def split: if_splits)

lemma ka_step_inv:
  assumes "ka_inv iv s" "0 < iv" "iv < 2 ^ 62"
  shows "ka_inv iv (fst (ka_step iv s r))"
proof (cases "\<not> conn s \<and> \<not> dial_ok r")
  case True
  from assms have "next_backoff (backoff s) = min (2 * backoff s) (60 * Second)"
    by (intro next_backoff_min ka_inv_bound) (simp_all add: ka_inv_def)
  with True assms show ?thesis
    by (simp add: ka_step_def ka_inv_def Second_def)
next
  case False
  with assms show ?thesis
    by (auto simp: ka_step_def ka_inv_def Let_def)
qed

lemma ka_loop_inv:
  assumes "ka_inv iv s" "0 < iv" "iv < 2 ^ 62"
  shows "ka_inv iv (fst (ka_loop iv s rs))"
  using assms(1)
proof (induction rs arbitrary: s)
  case Nil
  then show ?case by simp
next
  case (Cons r rs)
  from ka_step_inv [OF Cons.prems assms(2,3)] have "ka_inv iv (fst (ka_step iv s r))" .
  from Cons.IH [OF this] show ?case by (simp add: Let_def case_prod_beta)
qed

lemma minInterval_pos: "0 < minInterval d"
  by (simp add: minInterval_def Second_def)

text \<open>
  C4, as amended. For a clamped interval below \<open>2\<^sup>6\<^sup>2\<close> nanoseconds (some 146 years)
  the backoff of the loop starts as the clamped interval. After any rounds, a round
  that begins without a connection and whose dial fails waits the current backoff and
  nothing else, stays without a connection, and leaves the smaller of twice the current
  backoff and 60 seconds as the next backoff; a round that begins without a connection
  and whose dial succeeds leaves the clamped interval as the backoff.
\<close>

theorem TCPKeepAlive_backoff:
  assumes "minInterval d < 2 ^ 62"
  shows "backoff (fst (TCPKeepAlive d [])) = minInterval d
    \<and> (\<not> conn (fst (TCPKeepAlive d rounds)) \<and> \<not> dial_ok r \<longrightarrow>
          TCPKeepAlive d (rounds @ [r]) =
            (\<lparr>conn = False,
              backoff = min (2 * backoff (fst (TCPKeepAlive d rounds))) (60 * Second)\<rparr>,
             snd (TCPKeepAlive d rounds) @ [Dial False, Wait (backoff (fst (TCPKeepAlive d rounds)))]))
    \<and> (\<not> conn (fst (TCPKeepAlive d rounds)) \<and> dial_ok r \<longrightarrow>
          backoff (fst (TCPKeepAlive d (rounds @ [r]))) = minInterval d)"
proof -
  let ?iv = "minInterval d" and ?s = "fst (TCPKeepAlive d rounds)"
  have "ka_inv ?iv \<lparr>conn = False, backoff = ?iv\<rparr>"
    using minInterval_pos [of d] by (simp add: ka_inv_def)
  from ka_loop_inv [OF this minInterval_pos assms] have inv: "ka_inv ?iv ?s"
    by (simp add: TCPKeepAlive_def)
  then have "next_backoff (backoff ?s) = min (2 * backoff ?s) (60 * Second)"
    using assms by (intro next_backoff_min ka_inv_bound) (simp_all add: ka_inv_def)
  then have fail: "\<not> conn ?s \<and> \<not> dial_ok r \<longrightarrow>
          TCPKeepAlive d (rounds @ [r]) =
            (\<lparr>conn = False, backoff = min (2 * backoff ?s) (60 * Second)\<rparr>,
             snd (TCPKeepAlive d rounds) @ [Dial False, Wait (backoff ?s)])"
    by (simp add: TCPKeepAlive_def ka_loop_append ka_step_def)
  have ok: "\<not> conn ?s \<and> dial_ok r \<longrightarrow> backoff (fst (TCPKeepAlive d (rounds @ [r]))) = ?iv"
    by (simp add: TCPKeepAlive_def ka_loop_append ka_step_def Let_def)
  have "backoff (fst (TCPKeepAlive d [])) = ?iv" by (simp add: TCPKeepAlive_def)
  with fail ok show ?thesis by blast
qed

theorem TCPKeepAlive_backoff_witness:
  "minInterval (10 * Second) < 2 ^ 62
   \<and> TCPKeepAlive (10 * Second) [dial_fails] = (\<lparr>conn = False, backoff = 20 * Second\<rparr>, [Dial False, Wait (10 * Second)])
   \<and> backoff (fst (TCPKeepAlive (10 * Second) [dial_fails, all_well])) = 10 * Second"
proof -
  have a: "minInterval (10 * Second) < 2 ^ 62" by (simp add: minInterval_def Second_def)
  have s0: "TCPKeepAlive (10 * Second) [] = (\<lparr>conn = False, backoff = 10 * Second\<rparr>, [])"
    by (simp add: TCPKeepAlive_def minInterval_def Second_def)
  from TCPKeepAlive_backoff [OF a, of "[]" dial_fails] s0
  have s1: "TCPKeepAlive (10 * Second) [dial_fails] = (\<lparr>conn = False, backoff = 20 * Second\<rparr>, [Dial False, Wait (10 * Second)])"
    by (simp add: dial_fails_def Second_def)
  from TCPKeepAlive_backoff [OF a, of "[dial_fails]" all_well] s1
  have "backoff (fst (TCPKeepAlive (10 * Second) [dial_fails, all_well])) = 10 * Second"
    by (simp add: all_well_def minInterval_def Second_def)
  with a s1 show ?thesis by blast
qed

text \<open>
  C4 as stated fails beyond that bound. For an interval of 5000000000 seconds, which
  fits a \<^verbatim>\<open>time.Duration\<close>, the product \<^verbatim>\<open>backoff*2\<close> wraps to a negative number,
  which is smaller than 60 seconds and becomes the next backoff.
\<close>

theorem TCPKeepAlive_backoff_overflow_counterexample:
  "TCPKeepAlive (5000000000 * Second) [dial_fails]
     = (\<lparr>conn = False, backoff = - 8446744073709551616\<rparr>, [Dial False, Wait (5000000000 * Second)])
   \<and> min (2 * (5000000000 * Second)) (60 * Second) = 60 * Second"
  by (simp add: TCPKeepAlive_def minInterval_def Second_def ka_step_def dial_fails_def
      next_backoff_def wrap64_def float64_def int64_of_float64_def round_even_def bit_length.simps Let_def)

subsection \<open>The UDP keep-alive frame\<close>

lemma keepalive_pkt_query:
  "keepalive_pkt [t0, t1] = dns_query t0 t1 ''keepalive.natter''"
  by (simp add: keepalive_pkt_def dns_query_def dns_name_def u16_def)

lemma keepalive_txid_two: "\<exists>t0 t1. keepalive_txid r = [t0, t1]"
  by (simp add: keepalive_txid_def PutUint16_def split: rand_read.splits)

lemma UDPKeepAlive_nth: "i < length rounds \<Longrightarrow> UDPKeepAlive rounds ! i = udp_round_sends (rounds ! i)"
proof (induction rounds arbitrary: i)
  case Nil
  then show ?case by simp
next
  case (Cons r rs)
  then show ?case by (cases i) simp_all
qed

text \<open>
  C8, as amended. A round of the UDP keep-alive whose remote address resolves hands
  exactly one datagram to \<^verbatim>\<open>WriteTo\<close>, addressed to it; the payload is the DNS query
  for \<open>keepalive.natter\<close>, 34 bytes: a 2-byte transaction ID, the flags \<open>01 00\<close>, one
  question, no other records, the name \<open>keepalive.natter\<close> in labels, type A, class IN,
  and nothing after that. A round whose address does not resolve hands over nothing.
\<close>

theorem UDPKeepAlive_frame:
  assumes "i < length rounds"
  shows "(\<forall>a. raddr (rounds ! i) = Some a \<longrightarrow>
            (\<exists>t0 t1. UDPKeepAlive rounds ! i = [(a, dns_query t0 t1 ''keepalive.natter'')]
               \<and> length (dns_query t0 t1 ''keepalive.natter'') = 34))
       \<and> (raddr (rounds ! i) = None \<longrightarrow> UDPKeepAlive rounds ! i = [])"
proof -
  obtain t0 t1 where t: "keepalive_txid (rounds ! i) = [t0, t1]"
    using keepalive_txid_two by blast
  have "length (dns_query t0 t1 ''keepalive.natter'') = 34"
    by (simp add: keepalive_pkt_query [symmetric] keepalive_pkt_def)
  with t assms show ?thesis
    by (auto simp: UDPKeepAlive_nth udp_round_sends_def keepalive_pkt_query)
qed

theorem UDPKeepAlive_frame_witness:
  "(1::nat) < length [round_unresolved, round_ok]
   \<and> raddr ([round_unresolved, round_ok] ! 1) = Some ''119.29.29.29:34567''
   \<and> (\<exists>t0 t1. UDPKeepAlive [round_unresolved, round_ok] ! 1
         = [(''119.29.29.29:34567'', dns_query t0 t1 ''keepalive.natter'')])
   \<and> (0::nat) < length [round_unresolved, round_ok]
   \<and> raddr ([round_unresolved, round_ok] ! 0) = None
   \<and> UDPKeepAlive [round_unresolved, round_ok] ! 0 = []"
proof -
  have l: "(1::nat) < length [round_unresolved, round_ok]" "(0::nat) < length [round_unresolved, round_ok]"
    by simp_all
  have r: "raddr ([round_unresolved, round_ok] ! 1) = Some ''119.29.29.29:34567''"
    "raddr ([round_unresolved, round_ok] ! 0) = None"
    by (simp_all add: round_ok_def round_unresolved_def)
  from UDPKeepAlive_frame [OF l(1)] r(1)
  have 1: "\<exists>t0 t1. UDPKeepAlive [round_unresolved, round_ok] ! 1
         = [(''119.29.29.29:34567'', dns_query t0 t1 ''keepalive.natter'')]"
    by blast
  from UDPKeepAlive_frame [OF l(2)] r(2)
  have 2: "UDPKeepAlive [round_unresolved, round_ok] ! 0 = []"
    by blast
  from l r 1 2 show ?thesis by blast
qed

text \<open>
  C8 as stated fails in a round whose remote address does not resolve: the loop waits
  for the next tick and has sent nothing.
\<close>

theorem UDPKeepAlive_unresolved_counterexample:
  "UDPKeepAlive [round_unresolved] = [[]]"
  by (simp add: udp_round_sends_def round_unresolved_def)

subsection \<open>The sockets on a monitored port\<close>

lemma windows_hook_calls:
  "windows_calls [(soExclusiveAddrUse, 0), (windows_SO_REUSEADDR, 1)]
     = [(SO_REUSEADDR, 0), (SO_REUSEADDR, 1)]"
  by (simp add: windows_calls_def winsock_option_def soExclusiveAddrUse_def windows_SO_REUSEADDR_def)

lemma helpers_enable_reuse:
  "reuse_enabled p (DialContext (newBoundDialer p laddr t) network)"
  "reuse_enabled p (DialContext (newDialerWithReuse p laddr) network)"
  "reuse_enabled p (Listen (listenWithReuse_config p) network)"
  by (cases p; simp add: DialContext_def Listen_def newBoundDialer_def newDialerWithReuse_def
      listenWithReuse_config_def windows_hook_calls option_value_def calls_of_def)+

lemma no_hook_no_reuse: "\<not> reuse_enabled p (Socket network None)"
  by (cases p) (simp_all add: option_value_def calls_of_def)

text \<open>
  C1 fails on the code. The STUN probe over TCP and the listener of the TCP forwarder
  are made with address reuse. The dialer of the TCP keep-alive has no \<^verbatim>\<open>Control\<close>
  hook, although \<^verbatim>\<open>newDialerWithReuse\<close> of the same package would supply one; the
  STUN probe over UDP and the packet socket of the UDP keep-alive come from
  \<^verbatim>\<open>net.DialUDP\<close> and \<^verbatim>\<open>net.ListenPacket\<close> and have none either.
\<close>

theorem keepalive_socket_without_reuse:
  "reuse_enabled p (stun_tcp_socket p c srcPort)
   \<and> reuse_enabled p (forwarder_socket p f)
   \<and> \<not> reuse_enabled p (keepalive_tcp_socket p laddr)
   \<and> \<not> reuse_enabled p (stun_udp_socket p c srcPort)
   \<and> \<not> reuse_enabled p (keepalive_udp_socket p addr)
   \<and> reuse_enabled p (DialContext (newDialerWithReuse p laddr) ''tcp'')"
  by (simp add: stun_tcp_socket_def forwarder_socket_def helpers_enable_reuse)
     (simp add: keepalive_tcp_socket_def stun_udp_socket_def keepalive_udp_socket_def
      DialContext_def DialUDP_def ListenPacket_def no_hook_no_reuse)


end
